theory Spec2Isabelle
  imports Main
begin

section \<open>The SMAA image loader as an event-driven program\<close>

text \<open>
  The source is \<^verbatim>\<open>src/images/smaa/utils/SMAAImageLoader.js\<close>: the private function
  \<^verbatim>\<open>generate\<close> and the method \<^verbatim>\<open>SMAAImageLoader.load\<close>. Both return at once and do
  the rest of their work in listeners and promise reactions. The embedding therefore has
  a record of everything the code reads or writes (the \<open>world\<close>), one function for each
  piece of code that runs to completion (the synchronous body of \<^verbatim>\<open>load\<close>, each listener,
  each promise reaction), and the events of the environment (a worker message, a worker
  error, a native load event of one of the two images), which a task of the event loop
  dispatches to the listeners registered at that moment. Every call the code makes on a
  collaborator is appended to a trace, so that counts and orders of calls can be stated.
\<close>

subsection \<open>Values\<close>

type_synonym js_error = string

text \<open>The array \<^verbatim>\<open>urls\<close>: two data URLs, search first.\<close>
type_synonym urls = "string \<times> string"

text \<open>The object \<^verbatim>\<open>result\<close>, seen through the \<^verbatim>\<open>src\<close> of its two images
  (\<open>None\<close> while a source has not been assigned).\<close>
type_synonym result = "string option \<times> string option"

datatype tracker = External | Internal

datatype image = Search | Area

datatype 'a promise = Pending | Fulfilled 'a | Rejected js_error

text \<open>
  The calls the code can make on its collaborators. \<open>WorkerTerminate\<close> is the
  \<^verbatim>\<open>terminate()\<close> method of the Worker interface, which releases the worker's execution
  context from outside; \<open>ManagerOnLoad\<close> is a loading manager announcing its completion.
\<close>
datatype action =
    ItemStart tracker string
  | ItemEnd tracker string
  | ItemError tracker string
  | ManagerOnLoad tracker
  | CallOnLoad result
  | CallOnError js_error
  | CallResolve result
  | CallReject js_error
  | GetItem string
  | SetItem string string
  | CreateObjectURL string
  | NewWorker string
  | AddWorkerListener string
  | PostMessage
  | WorkerTerminate
  | RevokeObjectURL string
  | GenResolve urls
  | GenReject js_error
  | AddImageListener image
  | SetSrc image string

text \<open>What the environment can deliver, each as one task of the event loop. The two
  components of a worker message are \<^verbatim>\<open>event.data.searchImageData\<close> and
  \<^verbatim>\<open>event.data.areaImageData\<close>; a worker error carries \<^verbatim>\<open>event.error\<close>.\<close>
datatype 'raw event =
    WorkerMessage 'raw 'raw
  | WorkerError js_error
  | ImageLoad image

subsection \<open>Collaborators\<close>

text \<open>
  Modelled from the spec: \<^verbatim>\<open>window.localStorage\<close>, the optional persistent store
  with \<^verbatim>\<open>get(key) -> string | null\<close> and \<^verbatim>\<open>set(key, value)\<close>. It is a browser object,
  so either operation may also throw; \<open>read_fails\<close> and \<open>write_fails\<close> give, key by key,
  the exception thrown (none where the map is undefined).
\<close>
record storage =
  items :: "string \<rightharpoonup> string"
  read_fails :: "string \<rightharpoonup> js_error"
  write_fails :: "string \<rightharpoonup> js_error"

definition getItem :: "string \<Rightarrow> storage \<Rightarrow> js_error + string option" where
  "getItem k st = (case read_fails st k of Some e \<Rightarrow> Inl e | None \<Rightarrow> Inr (items st k))"

definition setItem :: "string \<Rightarrow> string \<Rightarrow> storage \<Rightarrow> js_error + storage" where
  "setItem k v st =
     (case write_fails st k of
        Some e \<Rightarrow> Inl e
      | None \<Rightarrow> Inr (st\<lparr>items := (items st)(k \<mapsto> v)\<rparr>))"

text \<open>
  Modelled from the spec: the progress tracker (\<^verbatim>\<open>LoadingManager\<close> of the library
  three, imported and not part of this repository). It counts the units started and the
  units ended, and completes, calling its \<^verbatim>\<open>onLoad\<close>, when an end call makes the two
  counts equal. Its three methods return to their caller, as the tracker contract of
  the spec has it; what the caller has hung on its own manager is not part of the model.
\<close>
record manager =
  itemsTotal :: nat
  itemsLoaded :: nat

definition completed :: "manager \<Rightarrow> bool" where
  "completed m \<longleftrightarrow> itemsLoaded m = itemsTotal m"

subsection \<open>The world\<close>

text \<open>
  \<^item> \<open>localStorage\<close>: \<^verbatim>\<open>window.localStorage\<close>, \<open>None\<close> for \<^verbatim>\<open>undefined\<close>;
  \<^item> \<open>external\<close>, \<open>internal\<close>: \<^verbatim>\<open>externalManager\<close> and \<^verbatim>\<open>internalManager\<close>;
    \<open>internal_onLoad\<close> says that \<^verbatim>\<open>internalManager.onLoad\<close> has been assigned;
  \<^item> \<open>src\<close>, \<open>listening\<close>, \<open>load_pending\<close>: the two images of \<^verbatim>\<open>result\<close>: their source,
    whether the code's "load" listener is registered, and whether the image owes a load
    event for the source it was last given;
  \<^item> \<open>worker\<close>: the listeners of the spawned worker, with the \<^verbatim>\<open>disableCache\<close> and
    \<^verbatim>\<open>workerURL\<close> their closure captured; \<open>None\<close> when no listener is registered;
  \<^item> \<open>gen_promise\<close>: the promise \<^verbatim>\<open>promise\<close> of \<^verbatim>\<open>load\<close> (the one \<^verbatim>\<open>generate\<close> returns,
    or \<^verbatim>\<open>Promise.resolve(cachedURLs)\<close>), \<open>None\<close> before it exists; \<open>then_registered\<close>
    says that \<^verbatim>\<open>.then(...).catch(...)\<close> has been attached to it and \<open>reactions_done\<close>
    that the attached reaction has run;
  \<^item> \<open>load_promise\<close>: the promise \<^verbatim>\<open>load\<close> returns;
  \<^item> \<open>onLoad\<close>, \<open>onError\<close>: the two callbacks the caller passed to \<^verbatim>\<open>load\<close>, which its
    closures capture. They are the caller's code: all that matters here is whether a
    call of one returns (\<open>None\<close>) or throws (\<open>Some\<close> of the exception), which may depend
    on the argument;
  \<^item> \<open>uncaught\<close>: the exceptions that left a listener or a reaction uncaught.
\<close>
record world =
  localStorage :: "storage option"
  trace :: "action list"
  external :: manager
  internal :: manager
  internal_onLoad :: bool
  src :: "image \<Rightarrow> string option"
  listening :: "image \<Rightarrow> bool"
  load_pending :: "image \<Rightarrow> bool"
  worker :: "(bool \<times> string) option"
  gen_promise :: "urls promise option"
  then_registered :: bool
  reactions_done :: bool
  load_promise :: "result promise"
  onLoad :: "result \<Rightarrow> js_error option"
  onError :: "js_error \<Rightarrow> js_error option"
  uncaught :: "js_error list"

definition log_action :: "action \<Rightarrow> world \<Rightarrow> world" where
  "log_action a s = s\<lparr>trace := trace s @ [a]\<rparr>"

text \<open>The world in which \<^verbatim>\<open>load\<close> is called: the store of the environment, the
  caller's manager with whatever it has counted so far, and nothing else yet (the
  callbacks are the defaults \<^verbatim>\<open>() => {}\<close> until \<^verbatim>\<open>load\<close> receives the caller's).\<close>
definition init :: "storage option \<Rightarrow> manager \<Rightarrow> world" where
  "init st ext =
     \<lparr>localStorage = st, trace = [], external = ext,
      internal = \<lparr>itemsTotal = 0, itemsLoaded = 0\<rparr>, internal_onLoad = False,
      src = (\<lambda>_. None), listening = (\<lambda>_. False), load_pending = (\<lambda>_. False),
      worker = None, gen_promise = None, then_registered = False,
      reactions_done = False, load_promise = Pending,
      onLoad = (\<lambda>_. None), onError = (\<lambda>_. None), uncaught = []\<rparr>"

subsection \<open>Settling the two promises\<close>

text \<open>\<^verbatim>\<open>resolve\<close> and \<^verbatim>\<open>reject\<close> of a promise that is already settled do nothing.\<close>

definition resolve_load :: "result \<Rightarrow> world \<Rightarrow> world" where
  "resolve_load r s =
     (let s1 = log_action (CallResolve r) s
      in if load_promise s1 = Pending then s1\<lparr>load_promise := Fulfilled r\<rparr> else s1)"

definition reject_load :: "js_error \<Rightarrow> world \<Rightarrow> world" where
  "reject_load e s =
     (let s1 = log_action (CallReject e) s
      in if load_promise s1 = Pending then s1\<lparr>load_promise := Rejected e\<rparr> else s1)"

definition resolve_gen :: "urls \<Rightarrow> world \<Rightarrow> world" where
  "resolve_gen u s =
     (let s1 = log_action (GenResolve u) s
      in if gen_promise s1 = Some Pending then s1\<lparr>gen_promise := Some (Fulfilled u)\<rparr> else s1)"

definition reject_gen :: "js_error \<Rightarrow> world \<Rightarrow> world" where
  "reject_gen e s =
     (let s1 = log_action (GenReject e) s
      in if gen_promise s1 = Some Pending then s1\<lparr>gen_promise := Some (Rejected e)\<rparr> else s1)"

text \<open>An exception that nothing catches ends the listener or reaction where it was
  thrown: what would have run after it does not run.\<close>
definition throw_uncaught :: "js_error \<Rightarrow> world \<Rightarrow> world" where
  "throw_uncaught e s = s\<lparr>uncaught := uncaught s @ [e]\<rparr>"

subsection \<open>The loading managers\<close>

text \<open>Lines 112 to 117, the function assigned to \<^verbatim>\<open>internalManager.onLoad\<close>:
  \<^verbatim>\<open>onLoad(result); resolve(result);\<close> When the caller's \<^verbatim>\<open>onLoad\<close> throws, \<^verbatim>\<open>resolve\<close> is
  not reached; the exception passes through \<^verbatim>\<open>itemEnd\<close> and the "load" listener, whose
  last statement this call is, and nothing catches it.\<close>
definition internal_onLoad_handler :: "world \<Rightarrow> world" where
  "internal_onLoad_handler s =
     (let r = (src s Search, src s Area);
          s1 = log_action (CallOnLoad r) s
      in case onLoad s r of
           Some x \<Rightarrow> throw_uncaught x s1
         | None \<Rightarrow> resolve_load r s1)"

fun get_manager :: "tracker \<Rightarrow> world \<Rightarrow> manager" where
  "get_manager External s = external s"
| "get_manager Internal s = internal s"

fun set_manager :: "tracker \<Rightarrow> manager \<Rightarrow> world \<Rightarrow> world" where
  "set_manager External m s = s\<lparr>external := m\<rparr>"
| "set_manager Internal m s = s\<lparr>internal := m\<rparr>"

definition itemStart :: "tracker \<Rightarrow> string \<Rightarrow> world \<Rightarrow> world" where
  "itemStart t u s =
     (let m = get_manager t s
      in set_manager t (m\<lparr>itemsTotal := itemsTotal m + 1\<rparr>) (log_action (ItemStart t u) s))"

fun manager_onLoad :: "tracker \<Rightarrow> world \<Rightarrow> world" where
  "manager_onLoad External s = log_action (ManagerOnLoad External) s"
| "manager_onLoad Internal s =
     (if internal_onLoad s
      then internal_onLoad_handler (log_action (ManagerOnLoad Internal) s)
      else log_action (ManagerOnLoad Internal) s)"

definition itemEnd :: "tracker \<Rightarrow> string \<Rightarrow> world \<Rightarrow> world" where
  "itemEnd t u s =
     (let m = get_manager t s;
          m' = m\<lparr>itemsLoaded := itemsLoaded m + 1\<rparr>;
          s1 = set_manager t m' (log_action (ItemEnd t u) s)
      in if completed m' then manager_onLoad t s1 else s1)"

definition itemError :: "tracker \<Rightarrow> string \<Rightarrow> world \<Rightarrow> world" where
  "itemError t u s = log_action (ItemError t u) s"

subsection \<open>generate\<close>

text \<open>
  Lines 13 to 47, up to the return of the promise. \<open>workerURL\<close> is what
  \<^verbatim>\<open>URL.createObjectURL\<close> returned. The two listeners are registered, with the values
  their closure captures, before the trigger message is posted.
\<close>
definition generate :: "bool \<Rightarrow> string \<Rightarrow> world \<Rightarrow> world" where
  "generate disableCache workerURL s =
     (let s1 = log_action (CreateObjectURL workerURL) s;
          s2 = log_action (NewWorker workerURL) s1;
          s3 = s2\<lparr>gen_promise := Some Pending\<rparr>;
          s4 = log_action (AddWorkerListener ''error'') s3;
          s5 = log_action (AddWorkerListener ''message'') s4;
          s6 = s5\<lparr>worker := Some (disableCache, workerURL)\<rparr>
      in log_action PostMessage s6)"

text \<open>Line 20, the "error" listener: \<^verbatim>\<open>reject(event.error)\<close>.\<close>
definition on_worker_error :: "js_error \<Rightarrow> world \<Rightarrow> world" where
  "on_worker_error e s = reject_gen e s"

text \<open>Lines 38 and 39, the end of the "message" listener.\<close>
definition finish_message :: "string \<Rightarrow> urls \<Rightarrow> world \<Rightarrow> world" where
  "finish_message workerURL u s = resolve_gen u (log_action (RevokeObjectURL workerURL) s)"

text \<open>
  Lines 21 to 41, the "message" listener. \<open>toDataURL\<close> stands for
  \<^verbatim>\<open>RawImageData.from(d).toCanvas().toDataURL()\<close>, of a file that is not among the
  sources: a parameter, pure and deterministic as the spec describes the conversion.
\<close>
definition on_worker_message ::
    "('raw \<Rightarrow> string) \<Rightarrow> bool \<Rightarrow> string \<Rightarrow> 'raw \<Rightarrow> 'raw \<Rightarrow> world \<Rightarrow> world" where
  "on_worker_message toDataURL disableCache workerURL searchImageData areaImageData s =
     (let u = (toDataURL searchImageData, toDataURL areaImageData)
      in case (if disableCache then None else localStorage s) of
           None \<Rightarrow> finish_message workerURL u s
         | Some st \<Rightarrow>
             (let s1 = log_action (SetItem ''smaa-search'' (fst u)) s
              in case setItem ''smaa-search'' (fst u) st of
                   Inl e \<Rightarrow> throw_uncaught e s1
                 | Inr st1 \<Rightarrow>
                     (let s2 = log_action (SetItem ''smaa-area'' (snd u))
                                 (s1\<lparr>localStorage := Some st1\<rparr>)
                      in case setItem ''smaa-area'' (snd u) st1 of
                           Inl e \<Rightarrow> throw_uncaught e s2
                         | Inr st2 \<Rightarrow>
                             finish_message workerURL u (s2\<lparr>localStorage := Some st2\<rparr>))))"

subsection \<open>load\<close>

text \<open>
  Modelled from the spec: the native image resource, with a settable source and a
  one-shot "load" event: assigning \<^verbatim>\<open>src\<close> starts a load, which the environment
  completes with at most one load event.
\<close>
definition set_src :: "image \<Rightarrow> string \<Rightarrow> world \<Rightarrow> world" where
  "set_src i v s =
     log_action (SetSrc i v)
       (s\<lparr>src := (src s)(i \<mapsto> v), load_pending := (load_pending s)(i := True)\<rparr>)"

definition add_load_listener :: "image \<Rightarrow> world \<Rightarrow> world" where
  "add_load_listener i s =
     log_action (AddImageListener i) (s\<lparr>listening := (listening s)(i := True)\<rparr>)"

text \<open>Lines 129 to 141, the two "load" listeners.\<close>
fun on_image_load :: "image \<Rightarrow> world \<Rightarrow> world" where
  "on_image_load Search s =
     itemEnd Internal ''smaa-search'' (itemEnd External ''smaa-search'' s)"
| "on_image_load Area s =
     itemEnd Internal ''smaa-area'' (itemEnd External ''smaa-area'' s)"

text \<open>Lines 127 to 145, the reaction to the fulfilment of \<^verbatim>\<open>promise\<close>.\<close>
definition then_callback :: "urls \<Rightarrow> world \<Rightarrow> world" where
  "then_callback u s =
     set_src Area (snd u)
       (set_src Search (fst u)
          (add_load_listener Area (add_load_listener Search s)))"

text \<open>Lines 146 to 154, the reaction to its rejection. When the caller's \<^verbatim>\<open>onError\<close>
  throws, \<^verbatim>\<open>reject\<close> is not reached, and the exception rejects the promise that
  \<^verbatim>\<open>.catch\<close> made, which nothing handles.\<close>
definition catch_handler :: "js_error \<Rightarrow> world \<Rightarrow> world" where
  "catch_handler e s =
     (let s1 = itemError External ''smaa-search'' s;
          s2 = itemError External ''smaa-area'' s1;
          s3 = log_action (CallOnError e) s2
      in case onError s e of
           Some x \<Rightarrow> throw_uncaught x s3
         | None \<Rightarrow> reject_load e s3)"

text \<open>
  The microtask checkpoint at the end of every task: a reaction attached to
  \<^verbatim>\<open>promise\<close> runs, once, as soon as \<^verbatim>\<open>promise\<close> is settled and the running code has
  returned.
\<close>
definition drain :: "world \<Rightarrow> world" where
  "drain s =
     (if then_registered s \<and> \<not> reactions_done s then
        (case gen_promise s of
           Some (Fulfilled u) \<Rightarrow> then_callback u (s\<lparr>reactions_done := True\<rparr>)
         | Some (Rejected e) \<Rightarrow> catch_handler e (s\<lparr>reactions_done := True\<rparr>)
         | _ \<Rightarrow> s)
      else s)"

text \<open>Lines 124 to 127: \<^verbatim>\<open>promise\<close> is made from the cached pair when both entries
  are not null and by \<^verbatim>\<open>generate\<close> otherwise, and the reactions are attached.\<close>
definition choose_promise ::
    "bool \<Rightarrow> string \<Rightarrow> string option \<times> string option \<Rightarrow> world \<Rightarrow> world" where
  "choose_promise disableCache workerURL cachedURLs s =
     (let s1 = (case cachedURLs of
                  (Some a, Some b) \<Rightarrow> s\<lparr>gen_promise := Some (Fulfilled (a, b))\<rparr>
                | _ \<Rightarrow> generate disableCache workerURL s)
      in s1\<lparr>then_registered := True\<rparr>)"

text \<open>An exception thrown inside the executor of \<^verbatim>\<open>new Promise\<close> rejects that
  promise and ends the executor.\<close>
definition executor_throw :: "js_error \<Rightarrow> world \<Rightarrow> world" where
  "executor_throw e s =
     (if load_promise s = Pending then s\<lparr>load_promise := Rejected e\<rparr> else s)"

text \<open>
  Lines 95 to 158, the synchronous body of \<^verbatim>\<open>load\<close>, up to the return of the promise.
  \<open>onLoad_arg\<close> and \<open>onError_arg\<close> are its two parameters \<^verbatim>\<open>onLoad\<close> and \<^verbatim>\<open>onError\<close>, kept
  in the world for the closures that call them later. \<open>disableCache\<close> is \<^verbatim>\<open>this.disableCache\<close>; the external manager is the one
  of the world.
  The internal manager (\<open>s0\<close>), the returned promise and the two images of \<^verbatim>\<open>result\<close>
  (\<open>s5\<close>) are new objects of this call. The two \<^verbatim>\<open>getItem\<close> calls run inside the
  executor, before \<^verbatim>\<open>promise\<close> exists.
\<close>
definition load_sync ::
    "(result \<Rightarrow> js_error option) \<Rightarrow> (js_error \<Rightarrow> js_error option) \<Rightarrow>
     bool \<Rightarrow> string \<Rightarrow> world \<Rightarrow> world" where
  "load_sync onLoad_arg onError_arg disableCache workerURL s =
     (let s0 = s\<lparr>onLoad := onLoad_arg, onError := onError_arg,
                 internal := \<lparr>itemsTotal = 0, itemsLoaded = 0\<rparr>\<rparr>;
          s1 = itemStart External ''smaa-search'' s0;
          s2 = itemStart External ''smaa-area'' s1;
          s3 = itemStart Internal ''smaa-search'' s2;
          s4 = itemStart Internal ''smaa-area'' s3;
          s5 = s4\<lparr>load_promise := Pending, src := (\<lambda>_. None),
                  listening := (\<lambda>_. False), load_pending := (\<lambda>_. False)\<rparr>;
          s6 = s5\<lparr>internal_onLoad := True\<rparr>
      in case (if disableCache then None else localStorage s6) of
           None \<Rightarrow> choose_promise disableCache workerURL (None, None) s6
         | Some st \<Rightarrow>
             (let s7 = log_action (GetItem ''smaa-search'') s6
              in case getItem ''smaa-search'' st of
                   Inl e \<Rightarrow> executor_throw e s7
                 | Inr c0 \<Rightarrow>
                     (let s8 = log_action (GetItem ''smaa-area'') s7
                      in case getItem ''smaa-area'' st of
                           Inl e \<Rightarrow> executor_throw e s8
                         | Inr c1 \<Rightarrow> choose_promise disableCache workerURL (c0, c1) s8)))"

text \<open>The call of \<^verbatim>\<open>load\<close> as one task: its body, then the microtask checkpoint.\<close>
definition load ::
    "(result \<Rightarrow> js_error option) \<Rightarrow> (js_error \<Rightarrow> js_error option) \<Rightarrow>
     bool \<Rightarrow> string \<Rightarrow> world \<Rightarrow> world" where
  "load onLoad_arg onError_arg disableCache workerURL s =
     drain (load_sync onLoad_arg onError_arg disableCache workerURL s)"

subsection \<open>The event loop\<close>

text \<open>A worker event reaches the listeners of \<^verbatim>\<open>generate\<close> if they are registered. An
  image delivers a load event only while it owes one, and the event reaches the listener
  of \<^verbatim>\<open>load\<close> if it is registered.\<close>
fun dispatch :: "('raw \<Rightarrow> string) \<Rightarrow> 'raw event \<Rightarrow> world \<Rightarrow> world" where
  "dispatch toDataURL (WorkerMessage a b) s =
     (case worker s of
        None \<Rightarrow> s
      | Some (disableCache, workerURL) \<Rightarrow>
          on_worker_message toDataURL disableCache workerURL a b s)"
| "dispatch toDataURL (WorkerError e) s =
     (case worker s of None \<Rightarrow> s | Some _ \<Rightarrow> on_worker_error e s)"
| "dispatch toDataURL (ImageLoad i) s =
     (if load_pending s i then
        (let s1 = s\<lparr>load_pending := (load_pending s)(i := False)\<rparr>
         in if listening s i then on_image_load i s1 else s1)
      else s)"

definition step :: "('raw \<Rightarrow> string) \<Rightarrow> 'raw event \<Rightarrow> world \<Rightarrow> world" where
  "step toDataURL ev s = drain (dispatch toDataURL ev s)"

fun run :: "('raw \<Rightarrow> string) \<Rightarrow> world \<Rightarrow> 'raw event list \<Rightarrow> world" where
  "run toDataURL s [] = s"
| "run toDataURL s (ev # evs) = run toDataURL (step toDataURL ev s) evs"

section \<open>Projections of the trace and the invariant of a call\<close>

text \<open>The properties below are about parts of the trace: the start calls; the calls that
  end a unit or settle the call (\<open>calls\<close>: the end and error calls of both managers, the
  completion of the internal manager, the two callbacks of the caller, and \<^verbatim>\<open>resolve\<close> and
  \<^verbatim>\<open>reject\<close> of the returned promise); the callbacks alone; the calls that set up or
  tear down a worker.\<close>

fun is_start :: "action \<Rightarrow> bool" where
  "is_start (ItemStart t u) = True"
| "is_start _ = False"

fun is_call :: "action \<Rightarrow> bool" where
  "is_call (ItemEnd t u) = True"
| "is_call (ItemError t u) = True"
| "is_call (ManagerOnLoad t) = (t = Internal)"
| "is_call (CallOnLoad r) = True"
| "is_call (CallOnError e) = True"
| "is_call (CallResolve r) = True"
| "is_call (CallReject e) = True"
| "is_call _ = False"

abbreviation calls :: "world \<Rightarrow> action list" where
  "calls s \<equiv> filter is_call (trace s)"

text \<open>The calls of one "load" listener, of a completed load, and of the rejection
  reaction; the last two end with the settling call unless the callback threw.\<close>

fun end_calls :: "image \<Rightarrow> action list" where
  "end_calls Search = [ItemEnd External ''smaa-search'', ItemEnd Internal ''smaa-search'']"
| "end_calls Area = [ItemEnd External ''smaa-area'', ItemEnd Internal ''smaa-area'']"

definition done_calls :: "js_error option \<Rightarrow> result \<Rightarrow> action list" where
  "done_calls thrown r =
     [ManagerOnLoad Internal, CallOnLoad r] @
     (case thrown of None \<Rightarrow> [CallResolve r] | Some _ \<Rightarrow> [])"

definition error_calls :: "js_error option \<Rightarrow> js_error \<Rightarrow> action list" where
  "error_calls thrown e =
     [ItemError External ''smaa-search'', ItemError External ''smaa-area'', CallOnError e] @
     (case thrown of None \<Rightarrow> [CallReject e] | Some _ \<Rightarrow> [])"

text \<open>The state a promise is left in by a callback followed by a settling call.\<close>
definition settled_unless :: "js_error option \<Rightarrow> 'a promise \<Rightarrow> 'a promise" where
  "settled_unless thrown p = (case thrown of None \<Rightarrow> p | Some _ \<Rightarrow> Pending)"

text \<open>
  The invariant of a call of \<^verbatim>\<open>load\<close>, at the end of every task. It goes by the state of
  \<^verbatim>\<open>promise\<close>: none (the executor threw), pending, rejected, or fulfilled; in the last
  case by which of the two images still owes its load event. Each case fixes the calls
  made so far, the state of the returned promise and the count of the internal manager.
\<close>

fun is_rejected :: "'a promise \<Rightarrow> bool" where
  "is_rejected (Rejected e) = True"
| "is_rejected _ = False"

fun loaded_shape ::
    "bool \<Rightarrow> bool \<Rightarrow> js_error option \<Rightarrow> result \<Rightarrow> action list \<Rightarrow> result promise \<Rightarrow> nat \<Rightarrow>
     bool" where
  "loaded_shape True True x r cs p n \<longleftrightarrow> cs = [] \<and> p = Pending \<and> n = 0"
| "loaded_shape False True x r cs p n \<longleftrightarrow> cs = end_calls Search \<and> p = Pending \<and> n = 1"
| "loaded_shape True False x r cs p n \<longleftrightarrow> cs = end_calls Area \<and> p = Pending \<and> n = 1"
| "loaded_shape False False x r cs p n \<longleftrightarrow>
     (cs = end_calls Search @ end_calls Area @ done_calls x r \<or>
      cs = end_calls Area @ end_calls Search @ done_calls x r) \<and>
     p = settled_unless x (Fulfilled r) \<and> n = 2"

fun phase_inv :: "urls promise option \<Rightarrow> world \<Rightarrow> bool" where
  "phase_inv None s \<longleftrightarrow>
     calls s = [] \<and> is_rejected (load_promise s) \<and> \<not> then_registered s \<and>
     worker s = None \<and> \<not> load_pending s Search \<and> \<not> load_pending s Area \<and>
     itemsLoaded (internal s) = 0"
| "phase_inv (Some Pending) s \<longleftrightarrow>
     calls s = [] \<and> load_promise s = Pending \<and> then_registered s \<and>
     \<not> reactions_done s \<and> \<not> load_pending s Search \<and> \<not> load_pending s Area \<and>
     itemsLoaded (internal s) = 0"
| "phase_inv (Some (Rejected e)) s \<longleftrightarrow>
     calls s = error_calls (onError s e) e \<and>
     load_promise s = settled_unless (onError s e) (Rejected e) \<and> then_registered s \<and>
     reactions_done s \<and> \<not> load_pending s Search \<and> \<not> load_pending s Area \<and>
     itemsLoaded (internal s) = 0"
| "phase_inv (Some (Fulfilled u)) s \<longleftrightarrow>
     then_registered s \<and> reactions_done s \<and>
     src s Search = Some (fst u) \<and> src s Area = Some (snd u) \<and>
     listening s Search \<and> listening s Area \<and>
     loaded_shape (load_pending s Search) (load_pending s Area)
       (onLoad s (Some (fst u), Some (snd u))) (Some (fst u), Some (snd u))
       (calls s) (load_promise s) (itemsLoaded (internal s))"

definition loader_inv :: "world \<Rightarrow> bool" where
  "loader_inv s \<longleftrightarrow>
     itemsTotal (internal s) = 2 \<and> internal_onLoad s \<and> phase_inv (gen_promise s) s"

text \<open>The actions that only listeners and reactions perform, and the relation "the trace
  of \<open>s'\<close> is the trace of \<open>s\<close> followed by such actions".\<close>

fun async_action :: "action \<Rightarrow> bool" where
  "async_action (ItemStart t u) = False"
| "async_action (GetItem k) = False"
| "async_action (CreateObjectURL w) = False"
| "async_action (NewWorker w) = False"
| "async_action (AddWorkerListener k) = False"
| "async_action PostMessage = False"
| "async_action WorkerTerminate = False"
| "async_action _ = True"

definition extends :: "world \<Rightarrow> world \<Rightarrow> bool" where
  "extends s s' \<longleftrightarrow>
     take (length (trace s)) (trace s') = trace s \<and>
     list_all async_action (drop (length (trace s)) (trace s'))"

text \<open>Two worlds that differ at most in the external manager and in the trace.\<close>

definition agree :: "world \<Rightarrow> world \<Rightarrow> bool" where
  "agree s s' \<longleftrightarrow>
     localStorage s = localStorage s' \<and> internal s = internal s' \<and>
     internal_onLoad s = internal_onLoad s' \<and> src s = src s' \<and>
     listening s = listening s' \<and> load_pending s = load_pending s' \<and>
     worker s = worker s' \<and> gen_promise s = gen_promise s' \<and>
     then_registered s = then_registered s' \<and> reactions_done s = reactions_done s' \<and>
     load_promise s = load_promise s' \<and> onLoad s = onLoad s' \<and> onError s = onError s' \<and>
     uncaught s = uncaught s'"

fun is_callback :: "action \<Rightarrow> bool" where
  "is_callback (ManagerOnLoad t) = (t = Internal)"
| "is_callback (CallOnLoad r) = True"
| "is_callback (CallOnError e) = True"
| "is_callback (CallResolve r) = True"
| "is_callback (CallReject e) = True"
| "is_callback _ = False"

fun is_worker_call :: "action \<Rightarrow> bool" where
  "is_worker_call (CreateObjectURL w) = True"
| "is_worker_call (NewWorker w) = True"
| "is_worker_call (AddWorkerListener k) = True"
| "is_worker_call PostMessage = True"
| "is_worker_call WorkerTerminate = True"
| "is_worker_call _ = False"

text \<open>For the "message" listener: whether its writes, if it makes any, go through; the
  \<^verbatim>\<open>setItem\<close> calls it then makes; the store it leaves; and the two cache entries of a
  world.\<close>

definition writes_succeed :: "bool \<Rightarrow> storage option \<Rightarrow> bool" where
  "writes_succeed disableCache st \<longleftrightarrow>
     (case (if disableCache then None else st) of
        None \<Rightarrow> True
      | Some st \<Rightarrow> write_fails st ''smaa-search'' = None \<and> write_fails st ''smaa-area'' = None)"

definition write_calls :: "bool \<Rightarrow> storage option \<Rightarrow> urls \<Rightarrow> action list" where
  "write_calls disableCache st u =
     (case (if disableCache then None else st) of
        None \<Rightarrow> []
      | Some _ \<Rightarrow> [SetItem ''smaa-search'' (fst u), SetItem ''smaa-area'' (snd u)])"

definition write_both :: "bool \<Rightarrow> urls \<Rightarrow> storage option \<Rightarrow> storage option" where
  "write_both disableCache u st =
     (if disableCache then st
      else map_option (\<lambda>st. st\<lparr>items := (items st)(''smaa-search'' \<mapsto> fst u,
                                                     ''smaa-area'' \<mapsto> snd u)\<rparr>) st)"

text \<open>The events that are result messages of the worker.\<close>
fun is_message :: "'raw event \<Rightarrow> bool" where
  "is_message (WorkerMessage a b) = True"
| "is_message _ = False"

definition stored :: "world \<Rightarrow> (string option \<times> string option) option" where
  "stored s = map_option (\<lambda>st. (items st ''smaa-search'', items st ''smaa-area'')) (localStorage s)"

section \<open>Each piece of code as one update of the world\<close>

text \<open>The definitions follow the source statement by statement. For the proofs, each
  listener and reaction is rewritten as a single update of the world it starts from.\<close>

lemma resolve_load_nf:
  "resolve_load r s =
     s\<lparr>trace := trace s @ [CallResolve r],
       load_promise := (if load_promise s = Pending then Fulfilled r else load_promise s)\<rparr>"
  by (simp add: resolve_load_def log_action_def Let_def)

lemma reject_load_nf:
  "reject_load e s =
     s\<lparr>trace := trace s @ [CallReject e],
       load_promise := (if load_promise s = Pending then Rejected e else load_promise s)\<rparr>"
  by (simp add: reject_load_def log_action_def Let_def)

lemma resolve_gen_nf:
  "resolve_gen u s =
     s\<lparr>trace := trace s @ [GenResolve u],
       gen_promise := (if gen_promise s = Some Pending then Some (Fulfilled u) else gen_promise s)\<rparr>"
  by (simp add: resolve_gen_def log_action_def Let_def)

lemma reject_gen_nf:
  "reject_gen e s =
     s\<lparr>trace := trace s @ [GenReject e],
       gen_promise := (if gen_promise s = Some Pending then Some (Rejected e) else gen_promise s)\<rparr>"
  by (simp add: reject_gen_def log_action_def Let_def)

lemma then_callback_nf:
  "then_callback u s =
     s\<lparr>trace := trace s @ [AddImageListener Search, AddImageListener Area,
                            SetSrc Search (fst u), SetSrc Area (snd u)],
       src := (src s)(Search \<mapsto> fst u, Area \<mapsto> snd u),
       listening := (listening s)(Search := True, Area := True),
       load_pending := (load_pending s)(Search := True, Area := True)\<rparr>"
  by (simp add: then_callback_def set_src_def add_load_listener_def log_action_def)

lemma catch_handler_nf:
  "catch_handler e s =
     (case onError s e of
        None \<Rightarrow>
          s\<lparr>trace := trace s @ error_calls None e,
            load_promise := (if load_promise s = Pending then Rejected e else load_promise s)\<rparr>
      | Some x \<Rightarrow>
          s\<lparr>trace := trace s @ error_calls (Some x) e, uncaught := uncaught s @ [x]\<rparr>)"
  by (simp add: catch_handler_def reject_load_nf itemError_def log_action_def error_calls_def
      throw_uncaught_def Let_def split: option.splits)

lemma itemEnd_External_nf:
  "itemEnd External u s =
     s\<lparr>trace := trace s @ ItemEnd External u #
                  (if itemsLoaded (external s) + 1 = itemsTotal (external s)
                   then [ManagerOnLoad External] else []),
       external := (external s)\<lparr>itemsLoaded := itemsLoaded (external s) + 1\<rparr>\<rparr>"
  by (simp add: itemEnd_def completed_def log_action_def Let_def)

lemma itemEnd_Internal_nf:
  "internal_onLoad s \<Longrightarrow> itemEnd Internal u s =
     (if itemsLoaded (internal s) + 1 = itemsTotal (internal s)
      then (case onLoad s (src s Search, src s Area) of
              None \<Rightarrow>
                s\<lparr>trace := trace s @ ItemEnd Internal u #
                             done_calls None (src s Search, src s Area),
                  internal := (internal s)\<lparr>itemsLoaded := itemsLoaded (internal s) + 1\<rparr>,
                  load_promise := (if load_promise s = Pending
                                   then Fulfilled (src s Search, src s Area)
                                   else load_promise s)\<rparr>
            | Some x \<Rightarrow>
                s\<lparr>trace := trace s @ ItemEnd Internal u #
                             done_calls (Some x) (src s Search, src s Area),
                  internal := (internal s)\<lparr>itemsLoaded := itemsLoaded (internal s) + 1\<rparr>,
                  uncaught := uncaught s @ [x]\<rparr>)
      else s\<lparr>trace := trace s @ [ItemEnd Internal u],
             internal := (internal s)\<lparr>itemsLoaded := itemsLoaded (internal s) + 1\<rparr>\<rparr>)"
  by (simp add: itemEnd_def completed_def log_action_def Let_def internal_onLoad_handler_def
      resolve_load_nf throw_uncaught_def done_calls_def split: option.splits)

lemma generate_nf:
  "generate dc url s =
     s\<lparr>trace := trace s @ [CreateObjectURL url, NewWorker url, AddWorkerListener ''error'',
                            AddWorkerListener ''message'', PostMessage],
       worker := Some (dc, url), gen_promise := Some Pending\<rparr>"
  by (simp add: generate_def log_action_def Let_def)

lemma gen_cases [case_names NoPromise Waiting Done Failed]:
  obtains "gen_promise s = None" | "gen_promise s = Some Pending"
  | u where "gen_promise s = Some (Fulfilled u)"
  | e where "gen_promise s = Some (Rejected e)"
  by (cases "gen_promise s"; cases "the (gen_promise s)") auto

lemma drain_idle: "loader_inv s \<Longrightarrow> drain s = s"
  by (cases s rule: gen_cases) (auto simp add: loader_inv_def drain_def)

lemma on_worker_message_nf:
  "on_worker_message f dc url a b s =
     (case (if dc then None else localStorage s) of
        None \<Rightarrow>
          s\<lparr>trace := trace s @ [RevokeObjectURL url, GenResolve (f a, f b)],
            gen_promise := (if gen_promise s = Some Pending
                            then Some (Fulfilled (f a, f b)) else gen_promise s)\<rparr>
      | Some st \<Rightarrow>
          (case write_fails st ''smaa-search'' of
             Some e \<Rightarrow>
               s\<lparr>trace := trace s @ [SetItem ''smaa-search'' (f a)],
                 uncaught := uncaught s @ [e]\<rparr>
           | None \<Rightarrow>
               (case write_fails st ''smaa-area'' of
                  Some e \<Rightarrow>
                    s\<lparr>trace := trace s @ [SetItem ''smaa-search'' (f a),
                                           SetItem ''smaa-area'' (f b)],
                      localStorage := Some (st\<lparr>items := (items st)(''smaa-search'' \<mapsto> f a)\<rparr>),
                      uncaught := uncaught s @ [e]\<rparr>
                | None \<Rightarrow>
                    s\<lparr>trace := trace s @ [SetItem ''smaa-search'' (f a),
                                           SetItem ''smaa-area'' (f b),
                                           RevokeObjectURL url, GenResolve (f a, f b)],
                      localStorage := Some (st\<lparr>items := (items st)(''smaa-search'' \<mapsto> f a,
                                                                     ''smaa-area'' \<mapsto> f b)\<rparr>),
                      gen_promise := (if gen_promise s = Some Pending
                                      then Some (Fulfilled (f a, f b)) else gen_promise s)\<rparr>)))"
  by (simp add: on_worker_message_def finish_message_def resolve_gen_nf log_action_def
      throw_uncaught_def setItem_def Let_def split: option.splits)

text \<open>What a worker message leaves unchanged, and what it appends.\<close>
lemma on_worker_message_fields:
  "external (on_worker_message f dc url a b s) = external s"
  "internal (on_worker_message f dc url a b s) = internal s"
  "internal_onLoad (on_worker_message f dc url a b s) = internal_onLoad s"
  "src (on_worker_message f dc url a b s) = src s"
  "listening (on_worker_message f dc url a b s) = listening s"
  "load_pending (on_worker_message f dc url a b s) = load_pending s"
  "worker (on_worker_message f dc url a b s) = worker s"
  "then_registered (on_worker_message f dc url a b s) = then_registered s"
  "reactions_done (on_worker_message f dc url a b s) = reactions_done s"
  "load_promise (on_worker_message f dc url a b s) = load_promise s"
  "onLoad (on_worker_message f dc url a b s) = onLoad s"
  "onError (on_worker_message f dc url a b s) = onError s"
  "calls (on_worker_message f dc url a b s) = calls s"
  by (simp_all add: on_worker_message_nf split: option.splits)

lemma on_worker_message_gen:
  "gen_promise (on_worker_message f dc url a b s) = gen_promise s \<or>
   gen_promise s = Some Pending \<and>
   gen_promise (on_worker_message f dc url a b s) = Some (Fulfilled (f a, f b))"
  by (simp add: on_worker_message_nf split: option.splits)

lemma inv_step_error:
  assumes "loader_inv s" shows "loader_inv (step f (WorkerError e) s)"
proof (cases "worker s")
  case None
  then show ?thesis using assms by (simp add: step_def drain_idle)
next
  case (Some w)
  show ?thesis
  proof (cases s rule: gen_cases)
    case Waiting
    then show ?thesis using assms Some
      by (simp add: step_def on_worker_error_def reject_gen_nf drain_def catch_handler_nf
          loader_inv_def error_calls_def settled_unless_def split: option.splits)
  qed (use assms Some in \<open>simp_all add: step_def on_worker_error_def reject_gen_nf drain_def
          loader_inv_def\<close>)
qed

lemma inv_step_message:
  assumes "loader_inv s" shows "loader_inv (step f (WorkerMessage a b) s)"
proof (cases "worker s")
  case None
  then show ?thesis using assms by (simp add: step_def drain_idle)
next
  case (Some w)
  obtain dc url where w: "w = (dc, url)" by (cases w)
  let ?s' = "on_worker_message f dc url a b s"
  have step: "step f (WorkerMessage a b) s = drain ?s'"
    using Some w by (simp add: step_def)
  from on_worker_message_gen[of f dc url a b s] show ?thesis
  proof
    assume same: "gen_promise ?s' = gen_promise s"
    have "loader_inv ?s'" using assms same
      by (cases s rule: gen_cases) (simp_all add: loader_inv_def on_worker_message_fields)
    then show ?thesis by (simp add: step drain_idle)
  next
    assume *: "gen_promise s = Some Pending \<and> gen_promise ?s' = Some (Fulfilled (f a, f b))"
    then show ?thesis using assms
      by (simp add: step drain_def loader_inv_def on_worker_message_fields then_callback_nf)
  qed
qed

lemma on_image_load_nf:
  assumes "internal_onLoad s" "itemsTotal (internal s) = 2"
  shows "on_image_load i s =
     (let u = (case i of Search \<Rightarrow> ''smaa-search'' | Area \<Rightarrow> ''smaa-area'');
          r = (src s Search, src s Area);
          ext = ItemEnd External u #
                  (if itemsLoaded (external s) + 1 = itemsTotal (external s)
                   then [ManagerOnLoad External] else [])
      in if itemsLoaded (internal s) = 1
         then (case onLoad s r of
                 None \<Rightarrow>
                   s\<lparr>trace := trace s @ ext @ ItemEnd Internal u # done_calls None r,
                     external := (external s)\<lparr>itemsLoaded := itemsLoaded (external s) + 1\<rparr>,
                     internal := (internal s)\<lparr>itemsLoaded := itemsLoaded (internal s) + 1\<rparr>,
                     load_promise := (if load_promise s = Pending
                                      then Fulfilled r else load_promise s)\<rparr>
               | Some x \<Rightarrow>
                   s\<lparr>trace := trace s @ ext @ ItemEnd Internal u # done_calls (Some x) r,
                     external := (external s)\<lparr>itemsLoaded := itemsLoaded (external s) + 1\<rparr>,
                     internal := (internal s)\<lparr>itemsLoaded := itemsLoaded (internal s) + 1\<rparr>,
                     uncaught := uncaught s @ [x]\<rparr>)
         else s\<lparr>trace := trace s @ ext @ [ItemEnd Internal u],
                external := (external s)\<lparr>itemsLoaded := itemsLoaded (external s) + 1\<rparr>,
                internal := (internal s)\<lparr>itemsLoaded := itemsLoaded (internal s) + 1\<rparr>\<rparr>)"
  using assms
  by (cases i)
     (simp_all add: itemEnd_External_nf itemEnd_Internal_nf Let_def split: option.splits)

lemma inv_step_image:
  assumes "loader_inv s" shows "loader_inv (step f (ImageLoad i) s)"
proof (cases "load_pending s i")
  case False
  then show ?thesis using assms by (simp add: step_def drain_idle)
next
  case True
  show ?thesis
  proof (cases s rule: gen_cases)
    case (Done u)
    let ?s1 = "s\<lparr>load_pending := (load_pending s)(i := False)\<rparr>"
    have d: "dispatch f (ImageLoad i) s = on_image_load i ?s1"
      using True Done assms by (cases i) (simp_all add: loader_inv_def)
    have i1: "internal_onLoad ?s1" "itemsTotal (internal ?s1) = 2"
      using assms by (simp_all add: loader_inv_def)
    have "loader_inv (on_image_load i ?s1)"
      unfolding on_image_load_nf[OF i1] using assms True Done
      by (cases i; cases "load_pending s Search"; cases "load_pending s Area")
         (simp_all add: loader_inv_def Let_def done_calls_def settled_unless_def
            split: option.splits)
    then show ?thesis unfolding step_def d by (simp add: drain_idle)
  qed (use assms True in \<open>cases i; simp add: loader_inv_def\<close>)+
qed

lemma load_sync_nf:
  "load_sync cl ce dc url s =
     (let s6 = s\<lparr>onLoad := cl, onError := ce,
              external := (external s)\<lparr>itemsTotal := itemsTotal (external s) + 2\<rparr>,
              trace := trace s @
                        [ItemStart External ''smaa-search'', ItemStart External ''smaa-area'',
                         ItemStart Internal ''smaa-search'', ItemStart Internal ''smaa-area''],
              internal := \<lparr>itemsTotal = 2, itemsLoaded = 0\<rparr>,
              load_promise := Pending, src := (\<lambda>_. None),
              listening := (\<lambda>_. False), load_pending := (\<lambda>_. False),
              internal_onLoad := True\<rparr>
      in case (if dc then None else localStorage s) of
           None \<Rightarrow> choose_promise dc url (None, None) s6
         | Some st \<Rightarrow>
             (case getItem ''smaa-search'' st of
                Inl e \<Rightarrow> s6\<lparr>trace := trace s6 @ [GetItem ''smaa-search''],
                              load_promise := Rejected e\<rparr>
              | Inr c0 \<Rightarrow>
                  (case getItem ''smaa-area'' st of
                     Inl e \<Rightarrow> s6\<lparr>trace := trace s6 @ [GetItem ''smaa-search'', GetItem ''smaa-area''],
                                   load_promise := Rejected e\<rparr>
                   | Inr c1 \<Rightarrow>
                       choose_promise dc url (c0, c1)
                         (s6\<lparr>trace := trace s6 @ [GetItem ''smaa-search'', GetItem ''smaa-area'']\<rparr>))))"
  by (simp add: load_sync_def itemStart_def log_action_def executor_throw_def Let_def numeral_2_eq_2
      split: option.splits sum.splits)

lemma choose_promise_nf:
  "choose_promise dc url c s =
     (case c of
        (Some a, Some b) \<Rightarrow> s\<lparr>gen_promise := Some (Fulfilled (a, b)), then_registered := True\<rparr>
      | _ \<Rightarrow> s\<lparr>trace := trace s @ [CreateObjectURL url, NewWorker url,
                                    AddWorkerListener ''error'', AddWorkerListener ''message'',
                                    PostMessage],
               worker := Some (dc, url), gen_promise := Some Pending, then_registered := True\<rparr>)"
  by (simp add: choose_promise_def generate_nf split: option.splits prod.splits)

lemma inv_load: "loader_inv (load cl ce dc url (init env ext))"
  unfolding load_def load_sync_nf
  by (simp add: Let_def choose_promise_nf drain_def then_callback_nf
      loader_inv_def init_def split: option.splits sum.splits prod.splits)

lemma inv_step: "loader_inv s \<Longrightarrow> loader_inv (step f ev s)"
  by (cases ev) (simp_all add: inv_step_error inv_step_message inv_step_image)

lemma inv_run: "loader_inv s \<Longrightarrow> loader_inv (run f s evs)"
  by (induction evs arbitrary: s) (simp_all add: inv_step)

section \<open>What the asynchronous part can append to the trace\<close>

text \<open>No task after the synchronous body of \<^verbatim>\<open>load\<close> (or of \<^verbatim>\<open>generate\<close>) adds a start
  call, a read of the store or a worker call: it can only append the actions of
  listeners and reactions.\<close>

lemma extendsI: "trace s' = trace s @ xs \<Longrightarrow> list_all async_action xs \<Longrightarrow> extends s s'"
  by (simp add: extends_def)

lemma extendsD: "extends s s' \<Longrightarrow> \<exists>xs. trace s' = trace s @ xs \<and> list_all async_action xs"
  unfolding extends_def by (metis append_take_drop_id)

lemma extends_refl [simp]: "extends s s"
  by (simp add: extends_def)

lemma extends_trans: "extends s s' \<Longrightarrow> extends s' s'' \<Longrightarrow> extends s s''"
  by (auto dest!: extendsD intro!: extendsI)

lemma extends_upd [simp]:
  "extends s (s\<lparr>trace := trace s @ xs\<rparr>) \<longleftrightarrow> list_all async_action xs"
  by (simp add: extends_def)

lemma extends_itemEnd: "extends s (itemEnd t u s)"
  by (cases t)
     (auto intro!: extendsI simp add: itemEnd_def completed_def log_action_def Let_def
        internal_onLoad_handler_def resolve_load_nf throw_uncaught_def
        split: option.splits)

lemma extends_on_image_load: "extends s (on_image_load i s)"
  by (cases i) (auto intro: extends_trans extends_itemEnd)

lemma extends_drain: "extends s (drain s)"
  by (auto intro!: extendsI simp add: drain_def then_callback_nf catch_handler_nf error_calls_def
      split: option.splits promise.splits)

lemma extends_on_worker_message: "extends s (on_worker_message f dc url a b s)"
  by (auto intro!: extendsI simp add: on_worker_message_nf split: option.splits)

lemma extends_dispatch: "extends s (dispatch f ev s)"
proof (cases ev)
  case (WorkerMessage a b)
  then show ?thesis by (auto simp add: extends_on_worker_message split: option.splits)
next
  case (WorkerError e)
  then show ?thesis
    by (auto intro!: extendsI simp add: on_worker_error_def reject_gen_nf split: option.splits)
next
  case (ImageLoad i)
  have "extends s (on_image_load i (s\<lparr>load_pending := (load_pending s)(i := False)\<rparr>))"
    using extends_on_image_load[of "s\<lparr>load_pending := (load_pending s)(i := False)\<rparr>" i]
    by (simp add: extends_def)
  then show ?thesis using ImageLoad by (simp add: extends_def Let_def)
qed

lemma extends_step: "extends s (step f ev s)"
  unfolding step_def by (rule extends_trans[OF extends_dispatch extends_drain])

lemma extends_run: "extends s (run f s evs)"
  by (induction evs arbitrary: s) (auto intro: extends_trans extends_step)

lemma extends_count:
  "extends s s' \<Longrightarrow> \<not> async_action a \<Longrightarrow> count_list (trace s') a = count_list (trace s) a"
  by (auto dest!: extendsD simp add: list_all_iff count_list_0_iff)

lemma extends_starts:
  "extends s s' \<Longrightarrow> filter is_start (trace s') = filter is_start (trace s)"
proof -
  have "list_all async_action xs \<Longrightarrow> filter is_start xs = []" for xs
    by (induction xs) (auto elim: is_start.elims)
  then show "extends s s' \<Longrightarrow> ?thesis" by (auto dest!: extendsD)
qed

lemma extends_take:
  "extends s s' \<Longrightarrow> n \<le> length (trace s) \<Longrightarrow> take n (trace s') = take n (trace s)"
  by (auto dest!: extendsD)

lemma worker_step [simp]: "worker (step f ev s) = worker s"
proof -
  have d: "worker (drain s') = worker s'" for s'
    by (simp add: drain_def then_callback_nf catch_handler_nf split: option.splits promise.splits)
  have i: "worker (itemEnd t u s') = worker s'" for t u s'
    by (cases t) (simp_all add: itemEnd_def completed_def log_action_def Let_def
        internal_onLoad_handler_def resolve_load_nf throw_uncaught_def
        split: option.splits)
  have l: "worker (on_image_load j s') = worker s'" for j s'
    by (cases j) (simp_all add: i)
  have "worker (dispatch f ev s) = worker s"
    by (cases ev; cases "worker s")
       (auto simp add: on_worker_message_nf on_worker_error_def reject_gen_nf l Let_def
         split: option.splits)
  then show ?thesis by (simp add: step_def d)
qed

lemma worker_run [simp]: "worker (run f s evs) = worker s"
  by (induction evs arbitrary: s) simp_all

section \<open>The shapes a call can be in\<close>

text \<open>The invariant, read as four cases: nothing has happened yet (or ever will); the
  generation failed; one image has loaded; both have.\<close>

lemma inv_cases [consumes 1, case_names Idle Failed One Both]:
  assumes "loader_inv s"
  obtains
    "calls s = []" "\<forall>r. load_promise s \<noteq> Fulfilled r"
      "\<forall>e. gen_promise s \<noteq> Some (Rejected e)" "itemsLoaded (internal s) = 0"
  | e where "gen_promise s = Some (Rejected e)" "calls s = error_calls (onError s e) e"
      "load_promise s = settled_unless (onError s e) (Rejected e)"
      "itemsLoaded (internal s) = 0"
  | u i where "gen_promise s = Some (Fulfilled u)" "calls s = end_calls i"
      "load_promise s = Pending" "itemsLoaded (internal s) = 1"
  | u i j where "gen_promise s = Some (Fulfilled u)" "i \<noteq> j"
      "calls s = end_calls i @ end_calls j @
         done_calls (onLoad s (Some (fst u), Some (snd u))) (Some (fst u), Some (snd u))"
      "load_promise s =
         settled_unless (onLoad s (Some (fst u), Some (snd u)))
           (Fulfilled (Some (fst u), Some (snd u)))"
      "itemsLoaded (internal s) = 2"
proof (cases s rule: gen_cases)
  case NoPromise
  then show ?thesis using assms that(1)
    by (cases "load_promise s") (auto simp add: loader_inv_def)
next
  case Waiting
  then show ?thesis using assms that(1) by (auto simp add: loader_inv_def)
next
  case (Failed e)
  then show ?thesis using assms that(2) by (auto simp add: loader_inv_def)
next
  case (Done u)
  then have sh: "loaded_shape (load_pending s Search) (load_pending s Area)
      (onLoad s (Some (fst u), Some (snd u))) (Some (fst u), Some (snd u))
      (calls s) (load_promise s) (itemsLoaded (internal s))"
    using assms by (simp add: loader_inv_def)
  show ?thesis
  proof (cases "load_pending s Search"; cases "load_pending s Area")
    assume "load_pending s Search" "load_pending s Area"
    then show ?thesis using sh Done that(1) by simp
  next
    assume "\<not> load_pending s Search" "load_pending s Area"
    then show ?thesis using sh Done that(3)[of u Search] by simp
  next
    assume "load_pending s Search" "\<not> load_pending s Area"
    then show ?thesis using sh Done that(3)[of u Area] by simp
  next
    assume "\<not> load_pending s Search" "\<not> load_pending s Area"
    then show ?thesis using sh Done that(4)[of u Search Area] that(4)[of u Area Search]
      by auto
  qed
qed



lemma load_run_inv: "loader_inv (run f (load cl ce dc url (init env ext)) evs)"
  by (rule inv_run[OF inv_load])

lemma load_sync_trace:
  "\<exists>xs. trace (load_sync cl ce dc url (init env ext)) =
          [ItemStart External ''smaa-search'', ItemStart External ''smaa-area'',
           ItemStart Internal ''smaa-search'', ItemStart Internal ''smaa-area''] @ xs \<and>
        filter is_start xs = []"
  by (simp add: load_sync_nf choose_promise_nf init_def Let_def
      split: option.splits sum.splits prod.splits)

lemma load_run_starts:
  "filter is_start (trace (run f (load cl ce dc url (init env ext)) evs)) =
     [ItemStart External ''smaa-search'', ItemStart External ''smaa-area'',
      ItemStart Internal ''smaa-search'', ItemStart Internal ''smaa-area'']"
proof -
  let ?s = "load_sync cl ce dc url (init env ext)"
  have "extends ?s (run f (load cl ce dc url (init env ext)) evs)"
    unfolding load_def by (rule extends_trans[OF extends_drain extends_run])
  then show ?thesis using load_sync_trace[of cl ce dc url env ext]
    by (auto dest: extends_starts)
qed

lemmas eval_defs = load_def load_sync_nf choose_promise_nf init_def step_def drain_def
  on_worker_error_def reject_gen_nf resolve_gen_nf catch_handler_nf then_callback_nf
  on_worker_message_nf itemEnd_External_nf itemEnd_Internal_nf generate_nf getItem_def
  error_calls_def done_calls_def Let_def

lemma end_calls_count:
  "count_list (end_calls i) (ItemError t u) = 0"
  "count_list (end_calls Search) (ItemEnd t ''smaa-search'') = 1"
  "count_list (end_calls Area) (ItemEnd t ''smaa-area'') = 1"
  "count_list (end_calls Search) (ItemEnd t ''smaa-area'') = 0"
  "count_list (end_calls Area) (ItemEnd t ''smaa-search'') = 0"
  by (cases i; cases t; simp)+

section \<open>The external manager has no influence\<close>

text \<open>Every task maps worlds that differ at most in the external manager and the trace
  to worlds that differ at most there.\<close>

lemma agree_itemEnd: "agree s s' \<Longrightarrow> agree (itemEnd t u s) (itemEnd t u s')"
  by (cases t)
     (simp_all add: agree_def itemEnd_def completed_def log_action_def Let_def
        internal_onLoad_handler_def resolve_load_nf throw_uncaught_def
        split: option.splits)

lemma agree_on_image_load: "agree s s' \<Longrightarrow> agree (on_image_load i s) (on_image_load i s')"
  by (cases i) (simp_all add: agree_itemEnd)

lemma agree_drain: "agree s s' \<Longrightarrow> agree (drain s) (drain s')"
  by (auto simp add: agree_def drain_def then_callback_nf catch_handler_nf
      split: option.splits promise.splits)

lemma agree_on_worker_message:
  "agree s s' \<Longrightarrow> agree (on_worker_message f dc url a b s) (on_worker_message f dc url a b s')"
  by (simp add: agree_def on_worker_message_nf split: option.splits)

lemma agree_dispatch: "agree s s' \<Longrightarrow> agree (dispatch f ev s) (dispatch f ev s')"
proof (cases ev)
  case (WorkerMessage a b)
  assume ag: "agree s s'"
  then have "worker s' = worker s" by (simp add: agree_def)
  then show ?thesis using WorkerMessage ag
    by (cases "worker s") (auto simp add: agree_on_worker_message)
next
  case (WorkerError e)
  assume ag: "agree s s'"
  then have "worker s' = worker s" by (simp add: agree_def)
  then show ?thesis using WorkerError ag
    by (cases "worker s") (simp_all add: on_worker_error_def reject_gen_nf agree_def)
next
  case (ImageLoad i)
  assume ag: "agree s s'"
  then have eq: "load_pending s' = load_pending s" "listening s' = listening s"
    by (simp_all add: agree_def)
  have 1: "agree (s\<lparr>load_pending := (load_pending s)(i := False)\<rparr>)
                 (s'\<lparr>load_pending := (load_pending s)(i := False)\<rparr>)"
    using ag by (simp add: agree_def)
  show ?thesis using ImageLoad ag 1 agree_on_image_load[OF 1]
    by (simp add: eq Let_def)
qed

lemma agree_step: "agree s s' \<Longrightarrow> agree (step f ev s) (step f ev s')"
  unfolding step_def by (intro agree_drain agree_dispatch)

lemma agree_run: "agree s s' \<Longrightarrow> agree (run f s evs) (run f s' evs)"
  by (induction evs arbitrary: s s') (simp_all add: agree_step)

lemma agree_load: "agree (load cl ce dc url (init env ext)) (load cl ce dc url (init env ext'))"
  unfolding load_def
  by (rule agree_drain)
     (simp add: agree_def load_sync_nf choose_promise_nf init_def Let_def
        split: option.splits sum.splits prod.splits)

lemma callbacks_of_calls: "filter is_callback (filter is_call tr) = filter is_callback tr"
proof -
  have "is_callback a \<Longrightarrow> is_call a" for a by (cases a) auto
  then show ?thesis by (induction tr) auto
qed

section \<open>Further facts about runs\<close>

lemma extends_worker_calls:
  "extends s s' \<Longrightarrow> filter is_worker_call (trace s') = filter is_worker_call (trace s)"
proof -
  have "list_all async_action xs \<Longrightarrow> filter is_worker_call xs = []" for xs
    by (induction xs) (auto elim: is_worker_call.elims)
  then show "extends s s' \<Longrightarrow> ?thesis" by (auto dest!: extendsD)
qed

lemma extends_load_run: "extends (load cl ce dc url s) (run f (load cl ce dc url s) evs)"
  by (rule extends_run)

lemma gen_promise_drain [simp]: "gen_promise (drain s) = gen_promise s"
  by (simp add: drain_def then_callback_nf catch_handler_nf split: option.splits promise.splits)

lemma gen_promise_itemEnd [simp]: "gen_promise (itemEnd t u s) = gen_promise s"
  by (cases t) (simp_all add: itemEnd_def completed_def log_action_def Let_def
        internal_onLoad_handler_def resolve_load_nf throw_uncaught_def
        split: option.splits)

lemma gen_promise_on_image_load [simp]: "gen_promise (on_image_load i s) = gen_promise s"
  by (cases i) simp_all

lemma gen_promise_settled_step:
  "gen_promise s \<noteq> Some Pending \<Longrightarrow> gen_promise (step f ev s) = gen_promise s"
  by (cases ev)
     (auto simp add: step_def on_worker_message_nf on_worker_error_def reject_gen_nf Let_def
        split: option.splits)

lemma gen_promise_settled_run:
  "gen_promise s \<noteq> Some Pending \<Longrightarrow> gen_promise (run f s evs) = gen_promise s"
  by (induction evs arbitrary: s) (simp_all add: gen_promise_settled_step)

lemma inv_Fulfilled:
  assumes "loader_inv s" "gen_promise s = Some (Fulfilled u)"
  shows "src s Search = Some (fst u)" "src s Area = Some (snd u)"
    "load_promise s = Fulfilled r \<Longrightarrow> r = (Some (fst u), Some (snd u))"
proof -
  show "src s Search = Some (fst u)" "src s Area = Some (snd u)"
    using assms by (simp_all add: loader_inv_def)
  show "load_promise s = Fulfilled r \<Longrightarrow> r = (Some (fst u), Some (snd u))"
    using assms
    by (cases "load_pending s Search"; cases "load_pending s Area")
       (auto simp add: loader_inv_def settled_unless_def split: option.splits)
qed

lemma idle_step:
  assumes "loader_inv s" "gen_promise s = None"
  shows "step f ev s = s"
proof (cases ev)
  case (ImageLoad i)
  then show ?thesis using assms
    by (cases i) (simp_all add: step_def loader_inv_def drain_def)
qed (use assms in \<open>simp_all add: step_def loader_inv_def drain_def\<close>)

lemma idle_run: "loader_inv s \<Longrightarrow> gen_promise s = None \<Longrightarrow> run f s evs = s"
  by (induction evs arbitrary: s) (simp_all add: idle_step)

lemma on_worker_message_ok:
  assumes "writes_succeed dc (localStorage s)"
  shows "trace (on_worker_message f dc url a b s) =
           trace s @ write_calls dc (localStorage s) (f a, f b) @
             [RevokeObjectURL url, GenResolve (f a, f b)]"
    and "localStorage (on_worker_message f dc url a b s) =
           write_both dc (f a, f b) (localStorage s)"
    and "gen_promise (on_worker_message f dc url a b s) =
           (if gen_promise s = Some Pending then Some (Fulfilled (f a, f b)) else gen_promise s)"
    and "uncaught (on_worker_message f dc url a b s) = uncaught s"
  using assms
  by (cases dc; cases "localStorage s";
      simp add: on_worker_message_nf writes_succeed_def write_calls_def write_both_def)+

lemma writes_succeed_write_both [simp]:
  "writes_succeed dc (write_both dc u st) = writes_succeed dc st"
  by (cases st) (simp_all add: writes_succeed_def write_both_def)

lemma drain_unregistered: "\<not> then_registered s \<Longrightarrow> drain s = s"
  by (simp add: drain_def)

lemma generate_fields:
  "trace (generate dc url (init env ext)) =
     [CreateObjectURL url, NewWorker url, AddWorkerListener ''error'',
      AddWorkerListener ''message'', PostMessage]"
  "worker (generate dc url (init env ext)) = Some (dc, url)"
  "gen_promise (generate dc url (init env ext)) = Some Pending"
  "localStorage (generate dc url (init env ext)) = env"
  "then_registered (generate dc url (init env ext)) = False"
  "uncaught (generate dc url (init env ext)) = []"
  by (simp_all add: generate_nf init_def)

lemma step_message_unregistered:
  assumes "worker s = Some (dc, url)" "\<not> then_registered s"
  shows "step f (WorkerMessage a b) s = on_worker_message f dc url a b s"
  using assms by (simp add: step_def drain_unregistered on_worker_message_fields)

lemma load_miss_fields:
  assumes "read_fails st ''smaa-search'' = None" "read_fails st ''smaa-area'' = None"
    and "items st ''smaa-search'' = None \<or> items st ''smaa-area'' = None"
  shows "worker (load cl ce False url (init (Some st) ext)) = Some (False, url)"
    and "gen_promise (load cl ce False url (init (Some st) ext)) = Some Pending"
    and "then_registered (load cl ce False url (init (Some st) ext))"
    and "\<not> reactions_done (load cl ce False url (init (Some st) ext))"
    and "localStorage (load cl ce False url (init (Some st) ext)) = Some st"
    and "uncaught (load cl ce False url (init (Some st) ext)) = []"
    and "load_promise (load cl ce False url (init (Some st) ext)) = Pending"
    and "src (load cl ce False url (init (Some st) ext)) = (\<lambda>_. None)"
    and "RevokeObjectURL url \<notin> set (trace (load cl ce False url (init (Some st) ext)))"
  using assms
  by (auto simp add: load_def load_sync_nf choose_promise_nf init_def drain_def getItem_def Let_def
      split: option.splits)

lemma write_both_twice [simp]: "write_both dc u (write_both dc v st) = write_both dc u st"
  by (cases st) (simp_all add: write_both_def)

lemma write_calls_write_both [simp]:
  "write_calls dc (write_both dc v st) u = write_calls dc st u"
  by (cases st) (simp_all add: write_calls_def write_both_def)

lemma count_write_calls [simp]: "count_list (write_calls dc st u) (RevokeObjectURL w) = 0"
  by (simp add: write_calls_def split: option.splits)

lemma callbacks_itemEnd [simp]:
  "onLoad (itemEnd t u s) = onLoad s" "onError (itemEnd t u s) = onError s"
  by (cases t; simp add: itemEnd_def completed_def log_action_def Let_def
        internal_onLoad_handler_def resolve_load_nf throw_uncaught_def split: option.splits)+

lemma callbacks_drain [simp]:
  "onLoad (drain s) = onLoad s" "onError (drain s) = onError s"
  by (simp_all add: drain_def then_callback_nf catch_handler_nf
      split: option.splits promise.splits)

lemma callbacks_step [simp]:
  "onLoad (step f ev s) = onLoad s" "onError (step f ev s) = onError s"
proof -
  have l: "onLoad (on_image_load j s') = onLoad s'" "onError (on_image_load j s') = onError s'"
    for j s'
    by (cases j; simp)+
  have "onLoad (dispatch f ev s) = onLoad s \<and> onError (dispatch f ev s) = onError s"
    by (cases ev; cases "worker s")
       (auto simp add: on_worker_message_fields on_worker_error_def reject_gen_nf l Let_def)
  then show "onLoad (step f ev s) = onLoad s" "onError (step f ev s) = onError s"
    by (simp_all add: step_def)
qed

lemma callbacks_run [simp]:
  "onLoad (run f s evs) = onLoad s" "onError (run f s evs) = onError s"
  by (induction evs arbitrary: s) simp_all

lemma callbacks_load [simp]:
  "onLoad (load cl ce dc url s) = cl" "onError (load cl ce dc url s) = ce"
  by (simp_all add: load_def load_sync_nf choose_promise_nf Let_def
      split: option.splits sum.splits prod.splits)

lemma revoke_itemEnd [simp]:
  "count_list (trace (itemEnd t u s)) (RevokeObjectURL w) = count_list (trace s) (RevokeObjectURL w)"
  "localStorage (itemEnd t u s) = localStorage s"
  by (cases t; simp add: itemEnd_def completed_def log_action_def Let_def
        internal_onLoad_handler_def resolve_load_nf throw_uncaught_def split: option.splits)+

lemma revoke_drain [simp]:
  "count_list (trace (drain s)) (RevokeObjectURL w) = count_list (trace s) (RevokeObjectURL w)"
  "localStorage (drain s) = localStorage s"
  by (simp_all add: drain_def then_callback_nf catch_handler_nf error_calls_def
      split: option.splits promise.splits)

lemma revoke_step:
  assumes "worker s = Some (dc, url)" "writes_succeed dc (localStorage s)"
  shows "count_list (trace (step f ev s)) (RevokeObjectURL url) =
           count_list (trace s) (RevokeObjectURL url) + (if is_message ev then 1 else 0)"
    and "writes_succeed dc (localStorage (step f ev s))"
proof -
  have "count_list (trace (dispatch f ev s)) (RevokeObjectURL url) =
           count_list (trace s) (RevokeObjectURL url) + (if is_message ev then 1 else 0) \<and>
        writes_succeed dc (localStorage (dispatch f ev s))"
  proof (cases ev)
    case (WorkerMessage a b)
    then show ?thesis using assms
      by (simp add: on_worker_message_ok[OF assms(2)])
  next
    case (WorkerError e)
    then show ?thesis using assms by (simp add: on_worker_error_def reject_gen_nf)
  next
    case (ImageLoad i)
    then show ?thesis using assms by (cases i) (simp_all add: Let_def)
  qed
  then show "count_list (trace (step f ev s)) (RevokeObjectURL url) =
           count_list (trace s) (RevokeObjectURL url) + (if is_message ev then 1 else 0)"
    and "writes_succeed dc (localStorage (step f ev s))"
    by (simp_all add: step_def)
qed

lemma revoke_run:
  assumes "worker s = Some (dc, url)" "writes_succeed dc (localStorage s)"
  shows "count_list (trace (run f s evs)) (RevokeObjectURL url) =
           count_list (trace s) (RevokeObjectURL url) + length (filter is_message evs)"
  using assms
proof (induction evs arbitrary: s)
  case Nil
  then show ?case by simp
next
  case (Cons ev evs)
  have "worker (step f ev s) = Some (dc, url)" using Cons.prems by simp
  from Cons.IH[OF this revoke_step(2)[OF Cons.prems]] revoke_step(1)[OF Cons.prems, of f ev]
  show ?case by simp
qed

section \<open>The claims\<close>

text \<open>
  Claim C9. Every invocation of \<^verbatim>\<open>load\<close> issues exactly four start calls,
  synchronously at its beginning and in the fixed order external "smaa-search", external
  "smaa-area", internal "smaa-search", internal "smaa-area": they are the first four
  calls of the synchronous body, and whatever events follow, they stay the first four
  calls of the trace and the only start calls in it.
\<close>
theorem load_start_order:
  "take 4 (trace (load_sync cl ce dc url (init env ext))) =
     [ItemStart External ''smaa-search'', ItemStart External ''smaa-area'',
      ItemStart Internal ''smaa-search'', ItemStart Internal ''smaa-area''] \<and>
   take 4 (trace (run f (load cl ce dc url (init env ext)) evs)) =
     [ItemStart External ''smaa-search'', ItemStart External ''smaa-area'',
      ItemStart Internal ''smaa-search'', ItemStart Internal ''smaa-area''] \<and>
   filter is_start (trace (run f (load cl ce dc url (init env ext)) evs)) =
     [ItemStart External ''smaa-search'', ItemStart External ''smaa-area'',
      ItemStart Internal ''smaa-search'', ItemStart Internal ''smaa-area'']"
proof -
  let ?s = "load_sync cl ce dc url (init env ext)"
  let ?final = "run f (load cl ce dc url (init env ext)) evs"
  obtain xs where xs: "trace ?s =
      [ItemStart External ''smaa-search'', ItemStart External ''smaa-area'',
       ItemStart Internal ''smaa-search'', ItemStart Internal ''smaa-area''] @ xs"
    and nostart: "filter is_start xs = []"
    using load_sync_trace by blast
  have ext: "extends ?s ?final"
    unfolding load_def by (rule extends_trans[OF extends_drain extends_run])
  have len: "4 \<le> length (trace ?s)" using xs by simp
  have "take 4 (trace ?final) = take 4 (trace ?s)"
    by (rule extends_take[OF ext len])
  moreover have "filter is_start (trace ?final) = filter is_start (trace ?s)"
    by (rule extends_starts[OF ext])
  ultimately show ?thesis using xs nostart by simp
qed

text \<open>
  Claim C6, amended. Whenever the promise of the cache read or the generation is
  rejected with an error \<open>e\<close> and the caller's \<^verbatim>\<open>onError\<close> returns from its call with \<open>e\<close>,
  the tracker calls and callbacks of the whole call, in order, are exactly:
  \<^verbatim>\<open>itemError("smaa-search")\<close> and \<^verbatim>\<open>itemError("smaa-area")\<close> on the external manager,
  \<^verbatim>\<open>onError(e)\<close>, \<^verbatim>\<open>reject(e)\<close>. So the internal manager gets no terminal call and never
  completes, the returned promise is rejected with \<open>e\<close>, and the start calls are the four
  of the beginning, none repeated.
\<close>
theorem load_generation_error:
  assumes "gen_promise (run f (load cl ce dc url (init env ext)) evs) = Some (Rejected e)"
    and "ce e = None"
  shows "calls (run f (load cl ce dc url (init env ext)) evs) =
           [ItemError External ''smaa-search'', ItemError External ''smaa-area'',
            CallOnError e, CallReject e] \<and>
         load_promise (run f (load cl ce dc url (init env ext)) evs) = Rejected e \<and>
         filter is_start (trace (run f (load cl ce dc url (init env ext)) evs)) =
           [ItemStart External ''smaa-search'', ItemStart External ''smaa-area'',
            ItemStart Internal ''smaa-search'', ItemStart Internal ''smaa-area'']"
  using load_run_inv[of f cl ce dc url env ext evs] assms
  by (cases rule: inv_cases)
     (simp_all add: error_calls_def settled_unless_def load_run_starts)

text \<open>Claim C6 as stated fails when the caller's \<^verbatim>\<open>onError\<close> throws: \<^verbatim>\<open>reject\<close> is then
  never called and the returned promise is not rejected.\<close>
theorem load_generation_error_counterexample:
  "gen_promise (run (\<lambda>n::nat. ''data:'')
      (load (\<lambda>_. None) (\<lambda>_. Some ''oops'') False ''blob:w''
         (init None \<lparr>itemsTotal = 0, itemsLoaded = 0\<rparr>))
      [WorkerError ''boom'']) = Some (Rejected ''boom'') \<and>
   \<not> (load_promise (run (\<lambda>n::nat. ''data:'')
      (load (\<lambda>_. None) (\<lambda>_. Some ''oops'') False ''blob:w''
         (init None \<lparr>itemsTotal = 0, itemsLoaded = 0\<rparr>))
      [WorkerError ''boom'']) = Rejected ''boom'')"
  by (simp add: eval_defs)

theorem load_generation_error_witness:
  "gen_promise (run (\<lambda>n::nat. ''data:'')
      (load (\<lambda>_. None) (\<lambda>_. None) False ''blob:w''
         (init None \<lparr>itemsTotal = 0, itemsLoaded = 0\<rparr>))
      [WorkerError ''boom'']) = Some (Rejected ''boom'') \<and>
   calls (run (\<lambda>n::nat. ''data:'')
      (load (\<lambda>_. None) (\<lambda>_. None) False ''blob:w''
         (init None \<lparr>itemsTotal = 0, itemsLoaded = 0\<rparr>))
      [WorkerError ''boom'']) =
     [ItemError External ''smaa-search'', ItemError External ''smaa-area'',
      CallOnError ''boom'', CallReject ''boom''] \<and>
   load_promise (run (\<lambda>n::nat. ''data:'')
      (load (\<lambda>_. None) (\<lambda>_. None) False ''blob:w''
         (init None \<lparr>itemsTotal = 0, itemsLoaded = 0\<rparr>))
      [WorkerError ''boom'']) = Rejected ''boom''"
proof -
  have h: "gen_promise (run (\<lambda>n::nat. ''data:'')
      (load (\<lambda>_. None) (\<lambda>_. None) False ''blob:w''
         (init None \<lparr>itemsTotal = 0, itemsLoaded = 0\<rparr>))
      [WorkerError ''boom'']) = Some (Rejected ''boom'')"
    by (simp add: eval_defs)
  have k: "(\<lambda>_::js_error. None::js_error option) ''boom'' = None" by simp
  from load_generation_error[OF h k] h show ?thesis by simp
qed





text \<open>
  Claim C5, amended. Provided the caller's \<^verbatim>\<open>onLoad\<close> returns from its call: the returned
  promise is fulfilled exactly when the internal manager has completed, which is
  exactly when it has received the end of both "smaa-search" and "smaa-area"; when that
  happens the internal manager's \<^verbatim>\<open>onLoad\<close> fires, \<^verbatim>\<open>onLoad(result)\<close> is called and then
  \<^verbatim>\<open>resolve(result)\<close> with the same result, and these are the only callbacks of the
  call; and the state of the returned promise is the same whatever the external manager
  has counted, so its completing or not has no influence.
\<close>
theorem internal_completion_settles:
  assumes "\<forall>r. cl r = None"
  shows "((\<exists>r. load_promise (run f (load cl ce dc url (init env ext)) evs) = Fulfilled r) \<longleftrightarrow>
      completed (internal (run f (load cl ce dc url (init env ext)) evs))) \<and>
   (completed (internal (run f (load cl ce dc url (init env ext)) evs)) \<longleftrightarrow>
      ItemEnd Internal ''smaa-search'' \<in>
        set (trace (run f (load cl ce dc url (init env ext)) evs)) \<and>
      ItemEnd Internal ''smaa-area'' \<in>
        set (trace (run f (load cl ce dc url (init env ext)) evs))) \<and>
   (\<forall>r. load_promise (run f (load cl ce dc url (init env ext)) evs) = Fulfilled r \<longrightarrow>
      filter is_callback (trace (run f (load cl ce dc url (init env ext)) evs)) =
        [ManagerOnLoad Internal, CallOnLoad r, CallResolve r]) \<and>
   load_promise (run f (load cl ce dc url (init env ext')) evs) =
     load_promise (run f (load cl ce dc url (init env ext)) evs)"
proof -
  let ?final = "run f (load cl ce dc url (init env ext)) evs"
  have inv: "loader_inv ?final" by (rule load_run_inv)
  then have total: "itemsTotal (internal ?final) = 2" by (simp add: loader_inv_def)
  have ok: "cl r = None" for r using assms by (simp del: split_paired_All)
  have cb: "filter is_callback (trace ?final) = filter is_callback (calls ?final)"
    by (simp only: callbacks_of_calls)
  have mem: "ItemEnd Internal u \<in> set (trace ?final) \<longleftrightarrow> ItemEnd Internal u \<in> set (calls ?final)"
    for u by simp
  have "((\<exists>r. load_promise ?final = Fulfilled r) \<longleftrightarrow> completed (internal ?final)) \<and>
    (completed (internal ?final) \<longleftrightarrow>
      ItemEnd Internal ''smaa-search'' \<in> set (calls ?final) \<and>
      ItemEnd Internal ''smaa-area'' \<in> set (calls ?final)) \<and>
    (\<forall>r. load_promise ?final = Fulfilled r \<longrightarrow>
      filter is_callback (calls ?final) = [ManagerOnLoad Internal, CallOnLoad r, CallResolve r])"
    using inv
  proof (cases rule: inv_cases)
    case Idle
    then show ?thesis by (simp add: completed_def total)
  next
    case (Failed e)
    then show ?thesis
      by (cases "onError ?final e")
         (simp_all add: completed_def total error_calls_def settled_unless_def)
  next
    case (One u i)
    then show ?thesis by (cases i) (simp_all add: completed_def total)
  next
    case (Both u i j)
    then show ?thesis using total
      by (cases i; cases j) (simp_all add: completed_def done_calls_def settled_unless_def ok)
  qed
  moreover have "load_promise (run f (load cl ce dc url (init env ext')) evs) = load_promise ?final"
    using agree_run[OF agree_load[of cl ce dc url env ext' ext], of f evs]
    by (simp add: agree_def)
  ultimately show ?thesis unfolding cb mem by simp
qed

text \<open>Claim C5 as stated fails when the caller's \<^verbatim>\<open>onLoad\<close> throws: the internal manager
  has completed, \<^verbatim>\<open>resolve\<close> is never called, and the returned promise is pending.\<close>
theorem internal_completion_settles_counterexample:
  "completed (internal (run (\<lambda>n::nat. ''data:'')
      (load (\<lambda>_. Some ''oops'') (\<lambda>_. None) False ''blob:w''
         (init None \<lparr>itemsTotal = 0, itemsLoaded = 0\<rparr>))
      [WorkerMessage 0 1, ImageLoad Search, ImageLoad Area])) \<and>
   load_promise (run (\<lambda>n::nat. ''data:'')
      (load (\<lambda>_. Some ''oops'') (\<lambda>_. None) False ''blob:w''
         (init None \<lparr>itemsTotal = 0, itemsLoaded = 0\<rparr>))
      [WorkerMessage 0 1, ImageLoad Search, ImageLoad Area]) = Pending"
  by (simp add: eval_defs completed_def)

text \<open>The external manager is shared with three units that never end: it does not
  complete, and the promise is fulfilled all the same.\<close>
theorem internal_completion_settles_witness:
  "load_promise (run (\<lambda>n::nat. ''data:'')
      (load (\<lambda>_. None) (\<lambda>_. None) False ''blob:w''
         (init None \<lparr>itemsTotal = 4, itemsLoaded = 1\<rparr>))
      [WorkerMessage 0 1, ImageLoad Search, ImageLoad Area]) =
     Fulfilled (Some ''data:'', Some ''data:'') \<and>
   completed (internal (run (\<lambda>n::nat. ''data:'')
      (load (\<lambda>_. None) (\<lambda>_. None) False ''blob:w''
         (init None \<lparr>itemsTotal = 4, itemsLoaded = 1\<rparr>))
      [WorkerMessage 0 1, ImageLoad Search, ImageLoad Area])) \<and>
   \<not> completed (external (run (\<lambda>n::nat. ''data:'')
      (load (\<lambda>_. None) (\<lambda>_. None) False ''blob:w''
         (init None \<lparr>itemsTotal = 4, itemsLoaded = 1\<rparr>))
      [WorkerMessage 0 1, ImageLoad Search, ImageLoad Area])) \<and>
   filter is_callback (trace (run (\<lambda>n::nat. ''data:'')
      (load (\<lambda>_. None) (\<lambda>_. None) False ''blob:w''
         (init None \<lparr>itemsTotal = 4, itemsLoaded = 1\<rparr>))
      [WorkerMessage 0 1, ImageLoad Search, ImageLoad Area])) =
     [ManagerOnLoad Internal, CallOnLoad (Some ''data:'', Some ''data:''),
      CallResolve (Some ''data:'', Some ''data:'')]"
proof -
  let ?final = "run (\<lambda>n::nat. ''data:'')
      (load (\<lambda>_. None) (\<lambda>_. None) False ''blob:w''
         (init None \<lparr>itemsTotal = 4, itemsLoaded = 1\<rparr>))
      [WorkerMessage 0 1, ImageLoad Search, ImageLoad Area]"
  have h: "\<forall>r. (\<lambda>_::result. None::js_error option) r = None" by simp
  have p: "load_promise ?final = Fulfilled (Some ''data:'', Some ''data:'')"
    by (simp add: eval_defs)
  have e: "\<not> completed (external ?final)"
    by (simp add: eval_defs completed_def)
  from internal_completion_settles[OF h, of "\<lambda>n::nat. ''data:''" "\<lambda>_. None" False "''blob:w''"
      None "\<lparr>itemsTotal = 4, itemsLoaded = 1\<rparr>"
      "[WorkerMessage 0 1, ImageLoad Search, ImageLoad Area]"]
    p e
  show ?thesis by simp
qed

text \<open>
  Claim C3. With caching enabled, the store present and both "smaa-search" and
  "smaa-area" read as strings, \<^verbatim>\<open>load\<close> never calls \<^verbatim>\<open>generate\<close>: whatever events
  follow, no object URL is created, no worker is spawned or sent a message and no worker
  listener is registered; the two image sources are exactly the two cached strings, and
  so are those of the result the promise is fulfilled with.
\<close>
theorem cache_hit_skips_generation:
  assumes "getItem ''smaa-search'' st = Inr (Some a)"
    and "getItem ''smaa-area'' st = Inr (Some b)"
  shows "filter is_worker_call (trace (run f (load cl ce False url (init (Some st) ext)) evs)) = [] \<and>
    worker (run f (load cl ce False url (init (Some st) ext)) evs) = None \<and>
    gen_promise (run f (load cl ce False url (init (Some st) ext)) evs) = Some (Fulfilled (a, b)) \<and>
    src (run f (load cl ce False url (init (Some st) ext)) evs) Search = Some a \<and>
    src (run f (load cl ce False url (init (Some st) ext)) evs) Area = Some b \<and>
    (\<forall>r. load_promise (run f (load cl ce False url (init (Some st) ext)) evs) = Fulfilled r \<longrightarrow>
       r = (Some a, Some b))"
proof -
  let ?s = "load cl ce False url (init (Some st) ext)"
  let ?final = "run f ?s evs"
  have s: "gen_promise ?s = Some (Fulfilled (a, b))" "worker ?s = None"
    "filter is_worker_call (trace ?s) = []"
    using assms
    by (simp_all add: load_def load_sync_nf choose_promise_nf init_def drain_def then_callback_nf
        Let_def)
  have g: "gen_promise ?final = Some (Fulfilled (a, b))"
    using gen_promise_settled_run[of ?s f evs] s(1) by simp
  have w: "filter is_worker_call (trace ?final) = []"
    using extends_worker_calls[OF extends_load_run, of f cl ce False url "init (Some st) ext" evs]
      s(3)
    by simp
  have inv: "loader_inv ?final" by (rule load_run_inv)
  show ?thesis
    using w g s(2) inv_Fulfilled[OF inv g] by simp
qed

theorem cache_hit_skips_generation_witness:
  "getItem ''smaa-search''
      \<lparr>items = [''smaa-search'' \<mapsto> ''data:S'', ''smaa-area'' \<mapsto> ''data:A''],
       read_fails = Map.empty, write_fails = Map.empty\<rparr> = Inr (Some ''data:S'') \<and>
   getItem ''smaa-area''
      \<lparr>items = [''smaa-search'' \<mapsto> ''data:S'', ''smaa-area'' \<mapsto> ''data:A''],
       read_fails = Map.empty, write_fails = Map.empty\<rparr> = Inr (Some ''data:A'') \<and>
   load_promise (run (\<lambda>n::nat. ''data:'')
      (load (\<lambda>_. None) (\<lambda>_. None) False ''blob:w''
         (init (Some \<lparr>items = [''smaa-search'' \<mapsto> ''data:S'', ''smaa-area'' \<mapsto> ''data:A''],
                      read_fails = Map.empty, write_fails = Map.empty\<rparr>)
            \<lparr>itemsTotal = 0, itemsLoaded = 0\<rparr>))
      [ImageLoad Search, ImageLoad Area]) = Fulfilled (Some ''data:S'', Some ''data:A'') \<and>
   filter is_worker_call (trace (run (\<lambda>n::nat. ''data:'')
      (load (\<lambda>_. None) (\<lambda>_. None) False ''blob:w''
         (init (Some \<lparr>items = [''smaa-search'' \<mapsto> ''data:S'', ''smaa-area'' \<mapsto> ''data:A''],
                      read_fails = Map.empty, write_fails = Map.empty\<rparr>)
            \<lparr>itemsTotal = 0, itemsLoaded = 0\<rparr>))
      [ImageLoad Search, ImageLoad Area])) = [] \<and>
   src (run (\<lambda>n::nat. ''data:'')
      (load (\<lambda>_. None) (\<lambda>_. None) False ''blob:w''
         (init (Some \<lparr>items = [''smaa-search'' \<mapsto> ''data:S'', ''smaa-area'' \<mapsto> ''data:A''],
                      read_fails = Map.empty, write_fails = Map.empty\<rparr>)
            \<lparr>itemsTotal = 0, itemsLoaded = 0\<rparr>))
      [ImageLoad Search, ImageLoad Area]) Search = Some ''data:S''"
proof -
  let ?st = "\<lparr>items = [''smaa-search'' \<mapsto> ''data:S'', ''smaa-area'' \<mapsto> ''data:A''],
       read_fails = Map.empty, write_fails = Map.empty\<rparr>"
  have h1: "getItem ''smaa-search'' ?st = Inr (Some ''data:S'')"
    and h2: "getItem ''smaa-area'' ?st = Inr (Some ''data:A'')"
    by (simp_all add: getItem_def)
  have p: "load_promise (run (\<lambda>n::nat. ''data:'')
      (load (\<lambda>_. None) (\<lambda>_. None) False ''blob:w'' (init (Some ?st) \<lparr>itemsTotal = 0, itemsLoaded = 0\<rparr>))
      [ImageLoad Search, ImageLoad Area]) = Fulfilled (Some ''data:S'', Some ''data:A'')"
    by (simp add: eval_defs)
  from cache_hit_skips_generation[OF h1 h2, of "\<lambda>n::nat. ''data:''" "\<lambda>_. None"
      "\<lambda>_. None" "''blob:w''"
      "\<lparr>itemsTotal = 0, itemsLoaded = 0\<rparr>" "[ImageLoad Search, ImageLoad Area]"] h1 h2 p
  show ?thesis by simp
qed

text \<open>
  Claim C4. When caching is disabled, or the store is absent, or the store reads
  "smaa-search" or "smaa-area" as null, \<^verbatim>\<open>load\<close> calls \<^verbatim>\<open>generate\<close> exactly once: whatever
  events follow, the calls that set up a worker are one \<^verbatim>\<open>createObjectURL\<close>, one
  \<^verbatim>\<open>new Worker\<close>, the two listener registrations and one \<^verbatim>\<open>postMessage\<close>. Nothing is
  thrown: the synchronous body ends with both promises pending.
\<close>
theorem cache_miss_generates_once:
  assumes "dc \<or> env = None \<or>
     (\<exists>st. env = Some st \<and> read_fails st ''smaa-search'' = None \<and>
           read_fails st ''smaa-area'' = None \<and>
           (items st ''smaa-search'' = None \<or> items st ''smaa-area'' = None))"
  shows "filter is_worker_call (trace (run f (load cl ce dc url (init env ext)) evs)) =
      [CreateObjectURL url, NewWorker url, AddWorkerListener ''error'',
       AddWorkerListener ''message'', PostMessage] \<and>
    worker (run f (load cl ce dc url (init env ext)) evs) = Some (dc, url) \<and>
    gen_promise (load_sync cl ce dc url (init env ext)) = Some Pending \<and>
    load_promise (load_sync cl ce dc url (init env ext)) = Pending \<and>
    uncaught (load_sync cl ce dc url (init env ext)) = []"
proof -
  let ?sync = "load_sync cl ce dc url (init env ext)"
  let ?s = "load cl ce dc url (init env ext)"
  have s0: "filter is_worker_call (trace ?sync) =
      [CreateObjectURL url, NewWorker url, AddWorkerListener ''error'',
       AddWorkerListener ''message'', PostMessage]"
    "worker ?sync = Some (dc, url)" "gen_promise ?sync = Some Pending"
    "load_promise ?sync = Pending" "uncaught ?sync = []"
    using assms
    by (auto simp add: load_sync_nf choose_promise_nf init_def getItem_def Let_def
        split: option.splits)
  have d: "drain ?sync = ?sync" using s0(3) by (simp add: drain_def)
  have "extends ?sync (run f ?s evs)"
    unfolding load_def by (rule extends_trans[OF extends_drain extends_run])
  then have "filter is_worker_call (trace (run f ?s evs)) = filter is_worker_call (trace ?sync)"
    by (rule extends_worker_calls)
  moreover have "worker (run f ?s evs) = worker ?sync"
    by (simp add: load_def d)
  ultimately show ?thesis using s0 by simp
qed


text \<open>Only the search entry is cached: one worker is spawned.\<close>
theorem cache_miss_generates_once_witness:
  "read_fails \<lparr>items = [''smaa-search'' \<mapsto> ''data:S''], read_fails = Map.empty,
       write_fails = Map.empty\<rparr> ''smaa-search'' = None \<and>
   items \<lparr>items = [''smaa-search'' \<mapsto> ''data:S''], read_fails = Map.empty,
       write_fails = Map.empty\<rparr> ''smaa-area'' = None \<and>
   filter is_worker_call (trace (run (\<lambda>n::nat. ''data:'')
      (load (\<lambda>_. None) (\<lambda>_. None) False ''blob:w''
         (init (Some \<lparr>items = [''smaa-search'' \<mapsto> ''data:S''], read_fails = Map.empty,
                      write_fails = Map.empty\<rparr>) \<lparr>itemsTotal = 0, itemsLoaded = 0\<rparr>))
      [WorkerMessage 0 1, WorkerMessage 2 3])) =
     [CreateObjectURL ''blob:w'', NewWorker ''blob:w'', AddWorkerListener ''error'',
      AddWorkerListener ''message'', PostMessage]"
proof -
  let ?st = "\<lparr>items = [''smaa-search'' \<mapsto> ''data:S''], read_fails = Map.empty,
       write_fails = Map.empty\<rparr>"
  have h: "False \<or> Some ?st = None \<or>
     (\<exists>st. Some ?st = Some st \<and> read_fails st ''smaa-search'' = None \<and>
           read_fails st ''smaa-area'' = None \<and>
           (items st ''smaa-search'' = None \<or> items st ''smaa-area'' = None))"
    by simp
  from cache_miss_generates_once[OF h, of "\<lambda>n::nat. ''data:''" "\<lambda>_. None" "\<lambda>_. None"
      "''blob:w''"
      "\<lparr>itemsTotal = 0, itemsLoaded = 0\<rparr>" "[WorkerMessage 0 1, WorkerMessage 2 3]"]
  show ?thesis by simp
qed

text \<open>
  Claim C8, where the code departs from it. When reading the store throws \<open>e\<close> during
  \<^verbatim>\<open>load\<close> (at the first or at the second \<^verbatim>\<open>getItem\<close>), nothing is thrown to the caller
  and the returned promise is rejected with \<open>e\<close>, as the claim says. But the failure does
  not take the rejection path of a generation failure: whatever events follow, the
  managers have received the four start calls and nothing else, so the external
  manager gets no error call, \<^verbatim>\<open>onError\<close> is not called, and no worker is spawned.
\<close>
theorem store_read_failure:
  assumes "getItem ''smaa-search'' st = Inl e \<or>
     (\<exists>c. getItem ''smaa-search'' st = Inr c \<and> getItem ''smaa-area'' st = Inl e)"
  shows "load_promise (run f (load cl ce False url (init (Some st) ext)) evs) = Rejected e \<and>
    calls (run f (load cl ce False url (init (Some st) ext)) evs) = [] \<and>
    filter is_worker_call (trace (run f (load cl ce False url (init (Some st) ext)) evs)) = [] \<and>
    filter is_start (trace (run f (load cl ce False url (init (Some st) ext)) evs)) =
      [ItemStart External ''smaa-search'', ItemStart External ''smaa-area'',
       ItemStart Internal ''smaa-search'', ItemStart Internal ''smaa-area''] \<and>
    gen_promise (run f (load cl ce False url (init (Some st) ext)) evs) = None"
proof -
  let ?s = "load cl ce False url (init (Some st) ext)"
  have s: "load_promise ?s = Rejected e" "calls ?s = []" "filter is_worker_call (trace ?s) = []"
    "gen_promise ?s = None"
    using assms
    by (auto simp add: load_def load_sync_nf init_def drain_def Let_def)
  have "run f ?s evs = ?s"
    by (rule idle_run[OF inv_load s(4)])
  then show ?thesis using s load_run_starts[of f cl ce False url "Some st" ext evs] by simp
qed

theorem store_read_failure_witness:
  "getItem ''smaa-search'' \<lparr>items = Map.empty,
       read_fails = [''smaa-search'' \<mapsto> ''SecurityError''],
       write_fails = Map.empty\<rparr> = Inl ''SecurityError'' \<and>
   load_promise (run (\<lambda>n::nat. ''data:'')
      (load (\<lambda>_. None) (\<lambda>_. None) False ''blob:w''
         (init (Some \<lparr>items = Map.empty,
                      read_fails = [''smaa-search'' \<mapsto> ''SecurityError''],
                      write_fails = Map.empty\<rparr>) \<lparr>itemsTotal = 0, itemsLoaded = 0\<rparr>))
      [WorkerError ''boom'', ImageLoad Search]) = Rejected ''SecurityError'' \<and>
   calls (run (\<lambda>n::nat. ''data:'')
      (load (\<lambda>_. None) (\<lambda>_. None) False ''blob:w''
         (init (Some \<lparr>items = Map.empty,
                      read_fails = [''smaa-search'' \<mapsto> ''SecurityError''],
                      write_fails = Map.empty\<rparr>) \<lparr>itemsTotal = 0, itemsLoaded = 0\<rparr>))
      [WorkerError ''boom'', ImageLoad Search]) = []"
proof -
  let ?st = "\<lparr>items = Map.empty, read_fails = [''smaa-search'' \<mapsto> ''SecurityError''],
       write_fails = Map.empty\<rparr>"
  have g: "getItem ''smaa-search'' ?st = Inl ''SecurityError''"
    by (simp add: getItem_def)
  then have h: "getItem ''smaa-search'' ?st = Inl ''SecurityError'' \<or>
     (\<exists>c. getItem ''smaa-search'' ?st = Inr c \<and> getItem ''smaa-area'' ?st = Inl ''SecurityError'')"
    by simp
  from store_read_failure[OF h, of "\<lambda>n::nat. ''data:''" "\<lambda>_. None" "\<lambda>_. None" "''blob:w''"
      "\<lparr>itemsTotal = 0, itemsLoaded = 0\<rparr>" "[WorkerError ''boom'', ImageLoad Search]"] g
  show ?thesis by simp
qed

text \<open>
  Claim C2, where the code departs from it. A call of \<^verbatim>\<open>generate\<close> revokes the blob URL
  once for each result message it receives (the cache writes, if any are made,
  succeeding) and at no other moment: whatever events follow the call, the number of
  \<^verbatim>\<open>revokeObjectURL\<close> calls is the number of result messages among them. So the URL is
  released exactly once when the worker answers with its one result, and not at all
  when the worker reports an error instead.
\<close>
theorem generate_revokes_per_message:
  assumes "writes_succeed dc env"
  shows "count_list (trace (run f (generate dc url (init env ext)) evs)) (RevokeObjectURL url) =
           length (filter is_message evs)"
proof -
  let ?g = "generate dc url (init env ext)"
  have "count_list (trace (run f ?g evs)) (RevokeObjectURL url) =
          count_list (trace ?g) (RevokeObjectURL url) + length (filter is_message evs)"
    using assms by (intro revoke_run) (simp_all add: generate_fields)
  then show ?thesis by (simp add: generate_fields)
qed

text \<open>One result message: one revocation. A worker error: none, and the promise of
  \<^verbatim>\<open>generate\<close> is rejected with the error of the event.\<close>
theorem generate_revokes_per_message_witness:
  "writes_succeed False None \<and>
   count_list (trace (run (\<lambda>n::nat. ''data:'')
      (generate False ''blob:w'' (init None \<lparr>itemsTotal = 0, itemsLoaded = 0\<rparr>))
      [WorkerMessage 0 1])) (RevokeObjectURL ''blob:w'') = 1 \<and>
   count_list (trace (run (\<lambda>n::nat. ''data:'')
      (generate False ''blob:w'' (init None \<lparr>itemsTotal = 0, itemsLoaded = 0\<rparr>))
      [WorkerError ''boom''])) (RevokeObjectURL ''blob:w'') = 0 \<and>
   gen_promise (run (\<lambda>n::nat. ''data:'')
      (generate False ''blob:w'' (init None \<lparr>itemsTotal = 0, itemsLoaded = 0\<rparr>))
      [WorkerError ''boom'']) = Some (Rejected ''boom'')"
proof -
  have h: "writes_succeed False None" by (simp add: writes_succeed_def)
  have r: "gen_promise (run (\<lambda>n::nat. ''data:'')
      (generate False ''blob:w'' (init None \<lparr>itemsTotal = 0, itemsLoaded = 0\<rparr>))
      [WorkerError ''boom'']) = Some (Rejected ''boom'')"
    by (simp add: generate_nf init_def step_def drain_def on_worker_error_def reject_gen_nf)
  from generate_revokes_per_message[OF h, of "\<lambda>n::nat. ''data:''" "''blob:w''"
      "\<lparr>itemsTotal = 0, itemsLoaded = 0\<rparr>" "[WorkerMessage 0 1::nat event]"]
    generate_revokes_per_message[OF h, of "\<lambda>n::nat. ''data:''" "''blob:w''"
      "\<lparr>itemsTotal = 0, itemsLoaded = 0\<rparr>" "[WorkerError ''boom''::nat event]"]
    h r
  show ?thesis by simp
qed

text \<open>
  Claim C7, where the code departs from it. After a cache miss with caching enabled and
  the store present, at the end of the task of the result message: if both writes
  succeeded, "smaa-search" and "smaa-area" hold exactly the two data URLs made from the
  message, both written before the blob URL is revoked and the promise of \<^verbatim>\<open>generate\<close>
  resolved with the same two URLs, which have become the two image sources, as the
  claim says. But if a write threw \<open>e\<close>, nothing caught it: \<open>e\<close> has left the listener
  uncaught, the blob URL has not been revoked and neither promise has been settled.
\<close>
theorem cache_miss_persists:
  assumes "read_fails st ''smaa-search'' = None" "read_fails st ''smaa-area'' = None"
    and "items st ''smaa-search'' = None \<or> items st ''smaa-area'' = None"
  shows "(write_fails st ''smaa-search'' = None \<and> write_fails st ''smaa-area'' = None \<longrightarrow>
      stored (run f (load cl ce False url (init (Some st) ext)) [WorkerMessage sd ad]) =
        Some (Some (f sd), Some (f ad)) \<and>
      gen_promise (run f (load cl ce False url (init (Some st) ext)) [WorkerMessage sd ad]) =
        Some (Fulfilled (f sd, f ad)) \<and>
      src (run f (load cl ce False url (init (Some st) ext)) [WorkerMessage sd ad]) Search = Some (f sd) \<and>
      src (run f (load cl ce False url (init (Some st) ext)) [WorkerMessage sd ad]) Area = Some (f ad) \<and>
      uncaught (run f (load cl ce False url (init (Some st) ext)) [WorkerMessage sd ad]) = [] \<and>
      trace (run f (load cl ce False url (init (Some st) ext)) [WorkerMessage sd ad]) =
        trace (load cl ce False url (init (Some st) ext)) @
          [SetItem ''smaa-search'' (f sd), SetItem ''smaa-area'' (f ad),
           RevokeObjectURL url, GenResolve (f sd, f ad),
           AddImageListener Search, AddImageListener Area,
           SetSrc Search (f sd), SetSrc Area (f ad)]) \<and>
    (\<forall>e. write_fails st ''smaa-search'' = Some e \<or>
          write_fails st ''smaa-search'' = None \<and> write_fails st ''smaa-area'' = Some e \<longrightarrow>
      uncaught (run f (load cl ce False url (init (Some st) ext)) [WorkerMessage sd ad]) = [e] \<and>
      gen_promise (run f (load cl ce False url (init (Some st) ext)) [WorkerMessage sd ad]) =
        Some Pending \<and>
      load_promise (run f (load cl ce False url (init (Some st) ext)) [WorkerMessage sd ad]) = Pending \<and>
      RevokeObjectURL url \<notin>
        set (trace (run f (load cl ce False url (init (Some st) ext)) [WorkerMessage sd ad])))"
proof -
  let ?l = "load cl ce False url (init (Some st) ext)"
  note l = load_miss_fields[OF assms]
  have run: "run f ?l [WorkerMessage sd ad] = drain (on_worker_message f False url sd ad ?l)"
    by (simp add: step_def l)
  show ?thesis
    unfolding run
    by (auto simp add: on_worker_message_nf drain_def then_callback_nf stored_def l)
qed


theorem cache_miss_persists_witness:
  "stored (run (\<lambda>n::nat. if n = 0 then ''data:S'' else ''data:A'')
      (load (\<lambda>_. None) (\<lambda>_. None) False ''blob:w''
         (init (Some \<lparr>items = Map.empty, read_fails = Map.empty, write_fails = Map.empty\<rparr>)
            \<lparr>itemsTotal = 0, itemsLoaded = 0\<rparr>))
      [WorkerMessage 0 1]) = Some (Some ''data:S'', Some ''data:A'') \<and>
   src (run (\<lambda>n::nat. if n = 0 then ''data:S'' else ''data:A'')
      (load (\<lambda>_. None) (\<lambda>_. None) False ''blob:w''
         (init (Some \<lparr>items = Map.empty, read_fails = Map.empty, write_fails = Map.empty\<rparr>)
            \<lparr>itemsTotal = 0, itemsLoaded = 0\<rparr>))
      [WorkerMessage 0 1]) Area = Some ''data:A'' \<and>
   uncaught (run (\<lambda>n::nat. if n = 0 then ''data:S'' else ''data:A'')
      (load (\<lambda>_. None) (\<lambda>_. None) False ''blob:w''
         (init (Some \<lparr>items = [''smaa-search'' \<mapsto> ''old''], read_fails = Map.empty,
                      write_fails = [''smaa-search'' \<mapsto> ''QuotaExceededError'']\<rparr>)
            \<lparr>itemsTotal = 0, itemsLoaded = 0\<rparr>))
      [WorkerMessage 0 1]) = [''QuotaExceededError''] \<and>
   gen_promise (run (\<lambda>n::nat. if n = 0 then ''data:S'' else ''data:A'')
      (load (\<lambda>_. None) (\<lambda>_. None) False ''blob:w''
         (init (Some \<lparr>items = [''smaa-search'' \<mapsto> ''old''], read_fails = Map.empty,
                      write_fails = [''smaa-search'' \<mapsto> ''QuotaExceededError'']\<rparr>)
            \<lparr>itemsTotal = 0, itemsLoaded = 0\<rparr>))
      [WorkerMessage 0 1]) = Some Pending"
proof -
  let ?ok = "\<lparr>items = Map.empty, read_fails = Map.empty, write_fails = Map.empty\<rparr>"
  let ?full = "\<lparr>items = [''smaa-search'' \<mapsto> ''old''], read_fails = Map.empty,
                 write_fails = [''smaa-search'' \<mapsto> ''QuotaExceededError'']\<rparr>"
  have ok: "read_fails ?ok ''smaa-search'' = None" "read_fails ?ok ''smaa-area'' = None"
    "items ?ok ''smaa-search'' = None \<or> items ?ok ''smaa-area'' = None"
    by simp_all
  have full: "read_fails ?full ''smaa-search'' = None" "read_fails ?full ''smaa-area'' = None"
    "items ?full ''smaa-search'' = None \<or> items ?full ''smaa-area'' = None"
    by simp_all
  from cache_miss_persists[OF ok, of "\<lambda>n::nat. if n = 0 then ''data:S'' else ''data:A''"
      "\<lambda>_. None" "\<lambda>_. None" "''blob:w''" "\<lparr>itemsTotal = 0, itemsLoaded = 0\<rparr>" 0 1]
    cache_miss_persists[OF full, of "\<lambda>n::nat. if n = 0 then ''data:S'' else ''data:A''"
      "\<lambda>_. None" "\<lambda>_. None" "''blob:w''" "\<lparr>itemsTotal = 0, itemsLoaded = 0\<rparr>" 0 1]
  show ?thesis by simp
qed

text \<open>
  Claim C10. The "message" listener of \<^verbatim>\<open>generate\<close> has no single-fire guard. A second
  result message runs it again in full: the new buffers are converted, both cache keys
  are written again with the new data URLs (when caching is enabled and the store
  exists), the blob URL is revoked a second time, and \<^verbatim>\<open>resolve\<close> is called again, which
  leaves the promise fulfilled with the URLs of the first message.
\<close>
theorem second_message_runs_handler_again:
  assumes "writes_succeed dc env"
  shows "trace (run f (generate dc url (init env ext)) [WorkerMessage sd ad, WorkerMessage sd' ad']) =
      trace (run f (generate dc url (init env ext)) [WorkerMessage sd ad]) @
        write_calls dc env (f sd', f ad') @ [RevokeObjectURL url, GenResolve (f sd', f ad')] \<and>
    localStorage (run f (generate dc url (init env ext)) [WorkerMessage sd ad, WorkerMessage sd' ad']) =
      write_both dc (f sd', f ad') env \<and>
    count_list (trace (run f (generate dc url (init env ext))
        [WorkerMessage sd ad, WorkerMessage sd' ad'])) (RevokeObjectURL url) = 2 \<and>
    gen_promise (run f (generate dc url (init env ext)) [WorkerMessage sd ad]) =
      Some (Fulfilled (f sd, f ad)) \<and>
    gen_promise (run f (generate dc url (init env ext)) [WorkerMessage sd ad, WorkerMessage sd' ad']) =
      Some (Fulfilled (f sd, f ad))"
proof -
  let ?g = "generate dc url (init env ext)"
  let ?m1 = "on_worker_message f dc url sd ad ?g"
  let ?m2 = "on_worker_message f dc url sd' ad' ?m1"
  have ok: "writes_succeed dc (localStorage ?g)"
    using assms by (simp add: generate_fields)
  note m1 = on_worker_message_ok[OF ok, of f url sd ad]
  have ok1: "writes_succeed dc (localStorage ?m1)"
    using assms by (simp add: m1 generate_fields)
  note m2 = on_worker_message_ok[OF ok1, of f url sd' ad']
  have r1: "run f ?g [WorkerMessage sd ad] = ?m1"
    by (simp add: step_message_unregistered[of _ dc url] generate_fields)
  have r2: "run f ?g [WorkerMessage sd ad, WorkerMessage sd' ad'] = ?m2"
    using r1
    by (simp add: step_message_unregistered[of _ dc url] generate_fields on_worker_message_fields)
  show ?thesis
    unfolding r1 r2
    by (simp add: m2 m1 generate_fields)
qed

theorem second_message_runs_handler_again_witness:
  "writes_succeed False
     (Some \<lparr>items = Map.empty, read_fails = Map.empty, write_fails = Map.empty\<rparr>) \<and>
   trace (run (\<lambda>n::nat. if n = 0 then ''data:0'' else ''data:1'')
      (generate False ''blob:w''
         (init (Some \<lparr>items = Map.empty, read_fails = Map.empty, write_fails = Map.empty\<rparr>)
            \<lparr>itemsTotal = 0, itemsLoaded = 0\<rparr>))
      [WorkerMessage 0 0, WorkerMessage 1 1]) =
     [CreateObjectURL ''blob:w'', NewWorker ''blob:w'', AddWorkerListener ''error'',
      AddWorkerListener ''message'', PostMessage,
      SetItem ''smaa-search'' ''data:0'', SetItem ''smaa-area'' ''data:0'',
      RevokeObjectURL ''blob:w'', GenResolve (''data:0'', ''data:0''),
      SetItem ''smaa-search'' ''data:1'', SetItem ''smaa-area'' ''data:1'',
      RevokeObjectURL ''blob:w'', GenResolve (''data:1'', ''data:1'')] \<and>
   stored (run (\<lambda>n::nat. if n = 0 then ''data:0'' else ''data:1'')
      (generate False ''blob:w''
         (init (Some \<lparr>items = Map.empty, read_fails = Map.empty, write_fails = Map.empty\<rparr>)
            \<lparr>itemsTotal = 0, itemsLoaded = 0\<rparr>))
      [WorkerMessage 0 0, WorkerMessage 1 1]) = Some (Some ''data:1'', Some ''data:1'') \<and>
   gen_promise (run (\<lambda>n::nat. if n = 0 then ''data:0'' else ''data:1'')
      (generate False ''blob:w''
         (init (Some \<lparr>items = Map.empty, read_fails = Map.empty, write_fails = Map.empty\<rparr>)
            \<lparr>itemsTotal = 0, itemsLoaded = 0\<rparr>))
      [WorkerMessage 0 0, WorkerMessage 1 1]) = Some (Fulfilled (''data:0'', ''data:0''))"
proof -
  let ?st = "\<lparr>items = Map.empty, read_fails = Map.empty, write_fails = Map.empty\<rparr>"
  let ?f = "\<lambda>n::nat. if n = 0 then ''data:0'' else ''data:1''"
  let ?g = "generate False ''blob:w'' (init (Some ?st) \<lparr>itemsTotal = 0, itemsLoaded = 0\<rparr>)"
  have h: "writes_succeed False (Some ?st)" by (simp add: writes_succeed_def)
  have first: "trace (run ?f ?g [WorkerMessage 0 0]) =
     [CreateObjectURL ''blob:w'', NewWorker ''blob:w'', AddWorkerListener ''error'',
      AddWorkerListener ''message'', PostMessage,
      SetItem ''smaa-search'' ''data:0'', SetItem ''smaa-area'' ''data:0'',
      RevokeObjectURL ''blob:w'', GenResolve (''data:0'', ''data:0'')]"
    by (simp add: generate_nf init_def step_def drain_def on_worker_message_nf)
  from second_message_runs_handler_again[OF h, of ?f "''blob:w''"
      "\<lparr>itemsTotal = 0, itemsLoaded = 0\<rparr>" 0 0 1 1] h first
  show ?thesis by (simp add: write_calls_def write_both_def stored_def)
qed

end
